theory Spec2Isabelle
  imports Main "HOL-Library.AList" "HOL-Library.Char_ord" "HOL-Library.List_Lexorder"
begin

section \<open>The Harvest client: data model\<close>

text \<open>
  The Go package keeps one \<open>Client\<close> object per account. Other objects (\<open>Invoice\<close>,
  \<open>Customer\<close>, \<open>Expense\<close>, \<open>Attachment\<close>) point back at it through their \<open>Hv\<close> field, and
  \<open>GetCompanyInfo\<close> writes its cache into it. Pointers are therefore addresses into a
  store of clients; the rate limiter of a client is the address of its
  \<open>ratelimit.Bucket\<close>.
\<close>

type_synonym addr = nat

record Company =
  BaseURI :: string
  FullDomain :: string
  Name :: string
  IsActive :: bool
  WeekStartDay :: string
  WantsTimestampTimers :: bool
  TimeFormat :: string
  PlanType :: string
  ExpenseFeature :: bool
  InvoiceFeature :: bool
  EstimateFeature :: bool
  ApprovalFeature :: bool
  Clock :: string
  DecimalSymbol :: string
  ThousandsSeparator :: string
  ColorScheme :: string

record Client =
  accountID :: int
  token :: string
  company :: "Company option"
  bucket :: addr

text \<open>
  Of an invoice, a customer and an expense the operations below read the identifier, the
  client key and the back pointer; the remaining JSON fields are carried by \<open>json.Marshal\<close>
  and \<open>json.Unmarshal\<close>, which are parameters of the model.
\<close>

record Invoice =
  ID :: int
  ClientKey :: string
  Hv :: addr

record Customer =
  CustomerID :: int
  CustomerName :: string
  CustomerHv :: addr

record Expense =
  ExpenseID :: int
  ExpenseHv :: addr

record Attachment =
  Path :: string
  Filename :: string
  Attachment_hv :: addr

record Recipient =
  RecipientName :: string
  Email :: string

datatype json =
    JNull
  | JBool bool
  | JNum string
  | JStr string
  | JArr "json list"
  | JObj "(string \<times> json) list"

datatype error =
    NewRequestError string
  | TransportError string
  | Failed string int
  | FailedBody string int string
  | SyntaxError
  | UnmarshalTypeError
  | MarshalError
  | ReadError
  | WriteError
  | CookieJarError

text \<open>A Go call either returns or panics (a nil dereference, a reflection misuse).\<close>

datatype 'r outcome = Returns 'r | Panics

datatype reqbody = NoBody | BytesBody string | PipeBody

record request =
  Method :: string
  URL :: string
  Header :: "(string \<times> string) list"
  ReqBody :: reqbody

record response =
  StatusCode :: int
  Body :: string

text \<open>
  What a client does to the outside: it waits for tokens of a bucket and it sends requests.
  The world is the store of clients, the rate limiters that exist (fill interval in
  nanoseconds and capacity), the next free address, and the history of these two effects
  in program order. Time is not part of the model: \<open>Wait\<close> is recorded, not timed.
\<close>

datatype event = Wait addr nat | Do request

record world =
  clients :: "addr \<Rightarrow> Client"
  buckets :: "addr \<Rightarrow> (nat \<times> nat) option"
  heap_top :: addr
  trace :: "event list"

text \<open>
  The collaborators the package calls into: \<open>http.Client.Do\<close> (the answer may depend on
  everything sent so far), the URL parser inside \<open>http.NewRequest\<close>, the JSON parser, the
  decoders of the company record and of the contact list, \<open>url.Values.Encode\<close>, the
  HTML scraper and \<open>cookiejar.New\<close>.
\<close>

record env =
  transport :: "event list \<Rightarrow> request \<Rightarrow> error + response"
  parse_url_ok :: "string \<Rightarrow> bool"
  parse_json :: "string \<Rightarrow> json option"
  decode_company :: "string \<Rightarrow> error + Company"
  decode_contacts :: "string \<Rightarrow> error + (string \<times> string \<times> string) list"
  values_Encode :: "(string \<times> string list) list \<Rightarrow> string"
  find_attachments :: "string \<Rightarrow> error + (string \<times> string) list"
  cookiejar_New :: "error option"

text \<open>
  What the generic code knows of its type parameter \<open>T\<close>: how \<open>json.Unmarshal\<close> fills one
  \<open>T\<close> from a JSON value other than \<open>null\<close>, and how reflection stores the \<open>Hv\<close> field.
\<close>

record 'a elem_type =
  unmarshal :: "json \<Rightarrow> 'a option"
  set_Hv :: "addr \<Rightarrow> 'a \<Rightarrow> 'a"

definition serverUrl :: string where
  "serverUrl = ''https://api.harvestapp.com/v2''"

definition StatusOK :: int where
  "StatusOK = 200"

definition StatusCreated :: int where
  "StatusCreated = 201"

subsection \<open>Formatting\<close>

definition digit_char :: "nat \<Rightarrow> char" where
  "digit_char d =
     (if d = 0 then CHR ''0'' else if d = 1 then CHR ''1'' else if d = 2 then CHR ''2''
      else if d = 3 then CHR ''3'' else if d = 4 then CHR ''4'' else if d = 5 then CHR ''5''
      else if d = 6 then CHR ''6'' else if d = 7 then CHR ''7'' else if d = 8 then CHR ''8''
      else CHR ''9'')"

fun digits :: "nat \<Rightarrow> string" where
  "digits n = (if n < 10 then [digit_char n] else digits (n div 10) @ [digit_char (n mod 10)])"

declare digits.simps [simp del]

text \<open>\<open>strconv.FormatInt(i, 10)\<close> and \<open>%d\<close>.\<close>

definition FormatInt :: "int \<Rightarrow> string" where
  "FormatInt i = (if i < 0 then CHR ''-'' # digits (nat (- i)) else digits (nat i))"

subsection \<open>Requests and the two effects\<close>

text \<open>
  \<open>http.NewRequest\<close> fails when the URL does not parse; the methods used are constants.
\<close>

definition NewRequest :: "env \<Rightarrow> string \<Rightarrow> string \<Rightarrow> reqbody \<Rightarrow> error + request" where
  "NewRequest e m u b =
     (if parse_url_ok e u
      then Inr \<lparr>Method = m, URL = u, Header = [], ReqBody = b\<rparr>
      else Inl (NewRequestError u))"

definition Header_Set :: "string \<Rightarrow> string \<Rightarrow> request \<Rightarrow> request" where
  "Header_Set k v req = req\<lparr>Header := AList.update k v (Header req)\<rparr>"

definition auth_headers :: "Client \<Rightarrow> request \<Rightarrow> request" where
  "auth_headers c req =
     Header_Set ''Authorization'' (''Bearer '' @ token c)
       (Header_Set ''Harvest-Account-ID'' (FormatInt (accountID c)) req)"

definition bucket_Wait :: "addr \<Rightarrow> nat \<Rightarrow> world \<Rightarrow> world" where
  "bucket_Wait b n w = w\<lparr>trace := trace w @ [Wait b n]\<rparr>"

definition client_Do :: "env \<Rightarrow> request \<Rightarrow> world \<Rightarrow> (error + response) \<times> world" where
  "client_Do e req w = (transport e (trace w) req, w\<lparr>trace := trace w @ [Do req]\<rparr>)"

subsection \<open>Decoding a page envelope\<close>

text \<open>
  \<open>json.NewDecoder(resp.Body).Decode(&r)\<close> with \<open>r\<close> a \<open>map[string]json.RawMessage\<close>: a
  JSON object fills the map (a repeated key keeps its last value), \<open>null\<close> leaves it
  empty, any other value is a type error, and a body that is not JSON is a syntax error.
\<close>

definition Decode_map :: "env \<Rightarrow> string \<Rightarrow> error + (string \<Rightarrow> json option)" where
  "Decode_map e b =
     (case parse_json e b of
        None \<Rightarrow> Inl SyntaxError
      | Some (JObj kvs) \<Rightarrow> Inr (map_of (rev kvs))
      | Some JNull \<Rightarrow> Inr (\<lambda>k. None)
      | Some _ \<Rightarrow> Inl UnmarshalTypeError)"

definition ascii_lower :: "char \<Rightarrow> char" where
  "ascii_lower c =
     (let n = (of_char c :: nat) in if 65 \<le> n \<and> n \<le> 90 then char_of (n + 32) else c)"

text \<open>
  A struct field tagged \<open>next\<close> takes every key equal to its name up to the case of
  letters.
\<close>

definition key_matches :: "string \<Rightarrow> string \<Rightarrow> bool" where
  "key_matches name k = (map ascii_lower k = name)"

definition next_values :: "(string \<times> json) list \<Rightarrow> json list" where
  "next_values kvs = map snd (filter (\<lambda>kv. key_matches ''next'' (fst kv)) kvs)"

definition is_string_or_null :: "json \<Rightarrow> bool" where
  "is_string_or_null j = (case j of JStr s \<Rightarrow> True | JNull \<Rightarrow> True | _ \<Rightarrow> False)"

text \<open>
  Decoding the keys of the object in document order: a string is stored, \<open>null\<close> leaves the
  field as it is.
\<close>

definition final_Next :: "json list \<Rightarrow> string" where
  "final_Next vs = foldl (\<lambda>acc j. case j of JStr s \<Rightarrow> s | _ \<Rightarrow> acc) [] vs"

text \<open>
  \<open>json.Unmarshal(r["links"], &links)\<close>: a key missing from the map gives an empty
  \<open>RawMessage\<close>, on which \<open>Unmarshal\<close> reports the unexpected end of the input.
\<close>

definition Unmarshal_links :: "json option \<Rightarrow> error + string" where
  "Unmarshal_links raw =
     (case raw of
        None \<Rightarrow> Inl SyntaxError
      | Some JNull \<Rightarrow> Inr []
      | Some (JObj kvs) \<Rightarrow>
          (if list_all is_string_or_null (next_values kvs)
           then Inr (final_Next (next_values kvs))
           else Inl UnmarshalTypeError)
      | Some _ \<Rightarrow> Inl UnmarshalTypeError)"

text \<open>
  \<open>json.Unmarshal(r[field], &results)\<close> with \<open>results\<close> a \<open>[]*T\<close>: \<open>null\<close> leaves the
  slice nil, an array fills it, an element \<open>null\<close> is a nil pointer (\<open>None\<close>).
\<close>

definition Unmarshal_elem :: "'a elem_type \<Rightarrow> json \<Rightarrow> 'a option option" where
  "Unmarshal_elem T j = (case j of JNull \<Rightarrow> Some None | _ \<Rightarrow> map_option Some (unmarshal T j))"

definition Unmarshal_results :: "'a elem_type \<Rightarrow> json option \<Rightarrow> error + 'a option list" where
  "Unmarshal_results T raw =
     (case raw of
        None \<Rightarrow> Inl SyntaxError
      | Some JNull \<Rightarrow> Inr []
      | Some (JArr js) \<Rightarrow>
          (if list_all (\<lambda>j. Unmarshal_elem T j \<noteq> None) js
           then Inr (map (\<lambda>j. the (Unmarshal_elem T j)) js)
           else Inl UnmarshalTypeError)
      | Some _ \<Rightarrow> Inl UnmarshalTypeError)"

section \<open>The page fetcher\<close>

text \<open>
  \<open>fetchAll\<close> returns the triple of Go: the elements, the next link and the error. Every
  error path returns \<open>nil, "", err\<close>. The part after \<open>hv.client.Do\<close> has returned a
  response is \<open>decode_page\<close>; the reflection loop at its end panics on a nil element.
\<close>

definition decode_page ::
  "env \<Rightarrow> 'a elem_type \<Rightarrow> addr \<Rightarrow> string \<Rightarrow> string \<Rightarrow> response
     \<Rightarrow> ('a list \<times> string \<times> error option) outcome" where
  "decode_page e T hv url field resp =
     (if StatusCode resp \<noteq> StatusOK
      then Returns ([], [], Some (Failed (''Failed to load '' @ url) (StatusCode resp)))
      else
        (case Decode_map e (Body resp) of
           Inl err \<Rightarrow> Returns ([], [], Some err)
         | Inr m \<Rightarrow>
             (case Unmarshal_links (m ''links'') of
                Inl err \<Rightarrow> Returns ([], [], Some err)
              | Inr next \<Rightarrow>
                  (case Unmarshal_results T (m field) of
                     Inl err \<Rightarrow> Returns ([], [], Some err)
                   | Inr results \<Rightarrow>
                       if None \<in> set results then Panics
                       else Returns (map (\<lambda>obj. set_Hv T hv (the obj)) results, next, None)))))"

definition page_request :: "Client \<Rightarrow> string \<Rightarrow> request" where
  "page_request c u = auth_headers c \<lparr>Method = ''GET'', URL = u, Header = [], ReqBody = NoBody\<rparr>"

definition fetchAll ::
  "env \<Rightarrow> 'a elem_type \<Rightarrow> addr \<Rightarrow> string \<Rightarrow> string \<Rightarrow> world
     \<Rightarrow> ('a list \<times> string \<times> error option) outcome \<times> world" where
  "fetchAll e T hv url field w =
     (case NewRequest e ''GET'' url NoBody of
        Inl err \<Rightarrow> (Returns ([], [], Some err), w)
      | Inr req0 \<Rightarrow>
          (let req = auth_headers (clients w hv) req0;
               w1 = bucket_Wait (bucket (clients w hv)) 1 w;
               (r, w2) = client_Do e req w1
           in case r of
                Inl err \<Rightarrow> (Returns ([], [], Some err), w2)
              | Inr resp \<Rightarrow> (decode_page e T hv url field resp, w2)))"

section \<open>The paginated sequence\<close>

text \<open>
  \<open>url.Values\<close> with \<open>Set\<close>, and the one request option of the package.
\<close>

type_synonym Values = "(string \<times> string list) list"

type_synonym requestOption = "Values \<Rightarrow> Values"

definition Values_Set :: "string \<Rightarrow> string \<Rightarrow> Values \<Rightarrow> Values" where
  "Values_Set k v vs = AList.update k [v] vs"

definition WithClientID :: "int \<Rightarrow> requestOption" where
  "WithClientID i = Values_Set ''client_id'' (FormatInt i)"

definition list_url :: "env \<Rightarrow> string \<Rightarrow> requestOption list \<Rightarrow> string" where
  "list_url e path opts =
     serverUrl @ ''/'' @ path @ ''?'' @ values_Encode e (foldl (\<lambda>v opt. opt v) [] opts)"

text \<open>
  The closure returned by \<open>fetchIter\<close> captures \<open>hv\<close>, \<open>field\<close>, \<open>buf\<close> and \<open>url\<close>; the last
  two are assigned by the loop and outlive one run of it. Building the sequence performs
  no request.
\<close>

record 'a cursor =
  cur_hv :: addr
  cur_field :: string
  buf :: "'a list"
  url :: string

definition fetchIter :: "env \<Rightarrow> addr \<Rightarrow> string \<Rightarrow> string \<Rightarrow> requestOption list \<Rightarrow> 'a cursor" where
  "fetchIter e hv field path opts =
     \<lparr>cur_hv = hv, cur_field = field, buf = [], url = list_url e path opts\<rparr>"

definition Invoices :: "env \<Rightarrow> addr \<Rightarrow> requestOption list \<Rightarrow> Invoice cursor" where
  "Invoices e hv opts = fetchIter e hv ''invoices'' ''invoices'' opts"

definition Customers :: "env \<Rightarrow> addr \<Rightarrow> requestOption list \<Rightarrow> Customer cursor" where
  "Customers e hv opts = fetchIter e hv ''customers'' ''customers'' opts"

definition Expenses :: "env \<Rightarrow> addr \<Rightarrow> requestOption list \<Rightarrow> Expense cursor" where
  "Expenses e hv opts = fetchIter e hv ''expenses'' ''expenses'' opts"

text \<open>
  The consumer is the \<open>yield\<close> function: it receives the pair \<open>(*T, error)\<close>, updates its
  own state and answers whether the loop goes on.
\<close>

type_synonym ('a, 'c) yield = "'c \<Rightarrow> 'a option \<times> error option \<Rightarrow> bool \<times> 'c"

datatype 'x step = Stop 'x | Cont 'x

text \<open>The first statement of the loop body: the refill of an empty buffer.\<close>

definition refill ::
  "env \<Rightarrow> 'a elem_type \<Rightarrow> ('a, 'c) yield
     \<Rightarrow> 'a cursor \<times> 'c \<times> world \<Rightarrow> (('a cursor \<times> 'c) outcome \<times> world) step" where
  "refill e T yield s =
     (case s of (cur, c, w) \<Rightarrow>
        if buf cur = [] \<and> url cur \<noteq> []
        then
          (case fetchAll e T (cur_hv cur) (url cur) (cur_field cur) w of
             (Panics, w') \<Rightarrow> Stop (Panics, w')
           | (Returns (items, next, err), w') \<Rightarrow>
               (case err of
                  Some er \<Rightarrow>
                    (case yield c (None, Some er) of
                       (go_on, c') \<Rightarrow>
                         if \<not> go_on then Stop (Returns (cur, c'), w')
                         else Cont (Returns (cur\<lparr>buf := items, url := next\<rparr>, c'), w'))
                | None \<Rightarrow> Cont (Returns (cur\<lparr>buf := items, url := next\<rparr>, c), w')))
        else Cont (Returns (cur, c), w))"

text \<open>
  The loop \<open>for { ... }\<close> of the closure. It has no bound of its own (a server may link
  pages for ever), so not returning is the value \<open>None\<close>.
\<close>

partial_function (option) fetchIter_seq ::
  "env \<Rightarrow> 'a elem_type \<Rightarrow> ('a, 'c) yield
     \<Rightarrow> 'a cursor \<times> 'c \<times> world \<Rightarrow> (('a cursor \<times> 'c) outcome \<times> world) option" where
  "fetchIter_seq e T yield s =
     (case refill e T yield s of
        Stop r \<Rightarrow> Some r
      | Cont (Panics, w1) \<Rightarrow> Some (Panics, w1)
      | Cont (Returns (cur, c), w1) \<Rightarrow>
          (case buf cur of
             [] \<Rightarrow> Some (Returns (cur, c), w1)
           | obj # rest \<Rightarrow>
               (case yield c (Some obj, None) of
                  (go_on, c') \<Rightarrow>
                    if \<not> go_on then Some (Returns (cur\<lparr>buf := rest\<rparr>, c'), w1)
                    else fetchIter_seq e T yield (cur\<lparr>buf := rest\<rparr>, c', w1))))"

text \<open>The one-page forms: the next link returned by \<open>fetchAll\<close> is dropped.\<close>

definition Invoice_T :: "(json \<Rightarrow> Invoice option) \<Rightarrow> Invoice elem_type" where
  "Invoice_T um = \<lparr>unmarshal = um, set_Hv = (\<lambda>a i. i\<lparr>Hv := a\<rparr>)\<rparr>"

definition Customer_T :: "(json \<Rightarrow> Customer option) \<Rightarrow> Customer elem_type" where
  "Customer_T um = \<lparr>unmarshal = um, set_Hv = (\<lambda>a i. i\<lparr>CustomerHv := a\<rparr>)\<rparr>"

definition Expense_T :: "(json \<Rightarrow> Expense option) \<Rightarrow> Expense elem_type" where
  "Expense_T um = \<lparr>unmarshal = um, set_Hv = (\<lambda>a i. i\<lparr>ExpenseHv := a\<rparr>)\<rparr>"

definition drop_next ::
  "('a list \<times> string \<times> error option) outcome \<times> world \<Rightarrow> ('a list \<times> error option) outcome \<times> world" where
  "drop_next r =
     (case r of
        (Panics, w') \<Rightarrow> (Panics, w')
      | (Returns (result, next, err), w') \<Rightarrow> (Returns (result, err), w'))"

definition FetchCustomers ::
  "env \<Rightarrow> (json \<Rightarrow> Customer option) \<Rightarrow> addr \<Rightarrow> requestOption list \<Rightarrow> world
     \<Rightarrow> (Customer list \<times> error option) outcome \<times> world" where
  "FetchCustomers e um hv opts w =
     drop_next (fetchAll e (Customer_T um) hv (list_url e ''customers'' opts) ''customers'' w)"

definition FetchInvoices ::
  "env \<Rightarrow> (json \<Rightarrow> Invoice option) \<Rightarrow> addr \<Rightarrow> requestOption list \<Rightarrow> world
     \<Rightarrow> (Invoice list \<times> error option) outcome \<times> world" where
  "FetchInvoices e um hv opts w =
     drop_next (fetchAll e (Invoice_T um) hv (list_url e ''invoices'' opts) ''invoices'' w)"

definition FetchExpenses ::
  "env \<Rightarrow> (json \<Rightarrow> Expense option) \<Rightarrow> addr \<Rightarrow> requestOption list \<Rightarrow> world
     \<Rightarrow> (Expense list \<times> error option) outcome \<times> world" where
  "FetchExpenses e um hv opts w =
     drop_next (fetchAll e (Expense_T um) hv (list_url e ''expenses'' opts) ''expenses'' w)"

section \<open>The client and its other requests\<close>

text \<open>
  \<open>New\<close> allocates the client and its bucket:
  \<open>ratelimit.NewBucket(15*time.Second/100, 100)\<close> refills one token every 150 ms up to
  100 tokens.
\<close>

definition New :: "env \<Rightarrow> int \<Rightarrow> string \<Rightarrow> world \<Rightarrow> (error + addr) \<times> world" where
  "New e acc tok w =
     (case cookiejar_New e of
        Some err \<Rightarrow> (Inl err, w)
      | None \<Rightarrow>
          (let a = heap_top w; b = Suc (heap_top w)
           in (Inr a,
               w\<lparr>clients := (clients w)(a := \<lparr>accountID = acc, token = tok, company = None, bucket = b\<rparr>),
                 buckets := (buckets w)(b \<mapsto> (15 * 1000000000 div 100, 100)),
                 heap_top := Suc (Suc (heap_top w))\<rparr>)))"

definition set_company :: "addr \<Rightarrow> Company \<Rightarrow> world \<Rightarrow> world" where
  "set_company hv info w = w\<lparr>clients := (clients w)(hv := (clients w hv)\<lparr>company := Some info\<rparr>)\<rparr>"

definition GetCompanyInfo :: "env \<Rightarrow> addr \<Rightarrow> world \<Rightarrow> (error + Company) \<times> world" where
  "GetCompanyInfo e hv w =
     (case company (clients w hv) of
        Some info \<Rightarrow> (Inr info, w)
      | None \<Rightarrow>
          (case NewRequest e ''GET'' (serverUrl @ ''/company'') NoBody of
             Inl err \<Rightarrow> (Inl err, w)
           | Inr req0 \<Rightarrow>
               (let req = auth_headers (clients w hv) req0;
                    w1 = bucket_Wait (bucket (clients w hv)) 1 w;
                    (r, w2) = client_Do e req w1
                in case r of
                     Inl err \<Rightarrow> (Inl err, w2)
                   | Inr resp \<Rightarrow>
                       if StatusCode resp \<noteq> StatusOK
                       then (Inl (Failed ''Failed to load company info'' (StatusCode resp)), w2)
                       else
                         (case decode_company e (Body resp) of
                            Inl err \<Rightarrow> (Inl err, w2)
                          | Inr info \<Rightarrow> (Inr info, set_company hv info w2)))))"

definition GetRecipients :: "env \<Rightarrow> addr \<Rightarrow> int \<Rightarrow> world \<Rightarrow> (error + Recipient list) \<times> world" where
  "GetRecipients e hv customer w =
     (case NewRequest e ''GET'' (serverUrl @ ''/contacts?client_id='' @ FormatInt customer) NoBody of
        Inl err \<Rightarrow> (Inl err, w)
      | Inr req0 \<Rightarrow>
          (let req = auth_headers (clients w hv) req0;
               w1 = bucket_Wait (bucket (clients w hv)) 1 w;
               (r, w2) = client_Do e req w1
           in case r of
                Inl err \<Rightarrow> (Inl err, w2)
              | Inr resp \<Rightarrow>
                  if StatusCode resp \<noteq> StatusOK
                  then (Inl (Failed ''Failed to load invoices'' (StatusCode resp)), w2)
                  else
                    (case decode_contacts e (Body resp) of
                       Inl err \<Rightarrow> (Inl err, w2)
                     | Inr cs \<Rightarrow>
                         (Inr (map (\<lambda>(email, first, last).
                                      \<lparr>RecipientName = first @ '' '' @ last, Email = email\<rparr>) cs),
                          w2))))"

text \<open>
  The three \<open>POST\<close>s of an invoice and \<open>CreateInvoice\<close> share one shape: marshal the
  payload, build the request, set three headers, wait, send, compare the status with 201.
  The source writes the shape out four times; so does the model. \<open>json.Marshal\<close> is a
  parameter (it fails on a float that is not a number).
\<close>

record createMessageRequest =
  Recipients :: "Recipient list"
  SendCopy :: bool
  IncludeLink :: bool
  AttachPDF :: bool
  Subject :: string
  MessageBody :: string

record markSentRequest =
  EventType :: string

record 'f createPaymentRequest =
  Amount :: 'f
  PaidDate :: string
  PaymentNotes :: string

definition json_headers :: "Client \<Rightarrow> request \<Rightarrow> request" where
  "json_headers c req = auth_headers c (Header_Set ''Content-type'' ''application/json'' req)"

definition Send ::
  "env \<Rightarrow> (createMessageRequest \<Rightarrow> error + string) \<Rightarrow> Invoice \<Rightarrow> string \<Rightarrow> string
     \<Rightarrow> Recipient list \<Rightarrow> world \<Rightarrow> error option \<times> world" where
  "Send e marshal i subject body to w =
     (case marshal \<lparr>Recipients = to, SendCopy = True, IncludeLink = True, AttachPDF = True,
                     Subject = subject, MessageBody = body\<rparr> of
        Inl err \<Rightarrow> (Some err, w)
      | Inr data \<Rightarrow>
          (case NewRequest e ''POST'' (serverUrl @ ''/invoices/'' @ FormatInt (ID i) @ ''/messages'')
                  (BytesBody data) of
             Inl err \<Rightarrow> (Some err, w)
           | Inr req0 \<Rightarrow>
               (let req = json_headers (clients w (Hv i)) req0;
                    w1 = bucket_Wait (bucket (clients w (Hv i))) 1 w;
                    (r, w2) = client_Do e req w1
                in case r of
                     Inl err \<Rightarrow> (Some err, w2)
                   | Inr resp \<Rightarrow>
                       if StatusCode resp \<noteq> StatusCreated
                       then (Some (Failed ''Failed to send invoice'' (StatusCode resp)), w2)
                       else (None, w2))))"

definition MarkSent ::
  "env \<Rightarrow> (markSentRequest \<Rightarrow> error + string) \<Rightarrow> Invoice \<Rightarrow> world \<Rightarrow> error option \<times> world" where
  "MarkSent e marshal i w =
     (case marshal \<lparr>EventType = ''send''\<rparr> of
        Inl err \<Rightarrow> (Some err, w)
      | Inr data \<Rightarrow>
          (case NewRequest e ''POST'' (serverUrl @ ''/invoices/'' @ FormatInt (ID i) @ ''/messages'')
                  (BytesBody data) of
             Inl err \<Rightarrow> (Some err, w)
           | Inr req0 \<Rightarrow>
               (let req = json_headers (clients w (Hv i)) req0;
                    w1 = bucket_Wait (bucket (clients w (Hv i))) 1 w;
                    (r, w2) = client_Do e req w1
                in case r of
                     Inl err \<Rightarrow> (Some err, w2)
                   | Inr resp \<Rightarrow>
                       if StatusCode resp \<noteq> StatusCreated
                       then (Some (Failed ''Failed to mark invoice as sent'' (StatusCode resp)), w2)
                       else (None, w2))))"

definition AddPayment ::
  "env \<Rightarrow> ('f createPaymentRequest \<Rightarrow> error + string) \<Rightarrow> ('t \<Rightarrow> string) \<Rightarrow> Invoice \<Rightarrow> 'f \<Rightarrow> 't
     \<Rightarrow> string \<Rightarrow> world \<Rightarrow> error option \<times> world" where
  "AddPayment e marshal format_date i amount date notes w =
     (case marshal \<lparr>Amount = amount, PaidDate = format_date date, PaymentNotes = notes\<rparr> of
        Inl err \<Rightarrow> (Some err, w)
      | Inr data \<Rightarrow>
          (case NewRequest e ''POST'' (serverUrl @ ''/invoices/'' @ FormatInt (ID i) @ ''/payments'')
                  (BytesBody data) of
             Inl err \<Rightarrow> (Some err, w)
           | Inr req0 \<Rightarrow>
               (let req = json_headers (clients w (Hv i)) req0;
                    w1 = bucket_Wait (bucket (clients w (Hv i))) 1 w;
                    (r, w2) = client_Do e req w1
                in case r of
                     Inl err \<Rightarrow> (Some err, w2)
                   | Inr resp \<Rightarrow>
                       if StatusCode resp \<noteq> StatusCreated
                       then (Some (Failed ''Failed to add payment'' (StatusCode resp)), w2)
                       else (None, w2))))"

definition CreateInvoice ::
  "env \<Rightarrow> (Invoice \<Rightarrow> error + string) \<Rightarrow> addr \<Rightarrow> Invoice \<Rightarrow> world \<Rightarrow> error option \<times> world" where
  "CreateInvoice e marshal hv invoice w =
     (case marshal invoice of
        Inl err \<Rightarrow> (Some err, w)
      | Inr data \<Rightarrow>
          (case NewRequest e ''POST'' (serverUrl @ ''/invoices'') (BytesBody data) of
             Inl err \<Rightarrow> (Some err, w)
           | Inr req0 \<Rightarrow>
               (let req = json_headers (clients w hv) req0;
                    w1 = bucket_Wait (bucket (clients w hv)) 1 w;
                    (r, w2) = client_Do e req w1
                in case r of
                     Inl err \<Rightarrow> (Some err, w2)
                   | Inr resp \<Rightarrow>
                       if StatusCode resp \<noteq> StatusCreated
                       then (Some (Failed ''Failed to create invoice'' (StatusCode resp)), w2)
                       else (None, w2))))"

text \<open>
  The downloads go to the company's own host, found through \<open>GetCompanyInfo\<close>, and carry
  no account headers. They return the body of the response.
\<close>

definition Download :: "env \<Rightarrow> Invoice \<Rightarrow> world \<Rightarrow> (error + string) \<times> world" where
  "Download e i w =
     (case GetCompanyInfo e (Hv i) w of
        (Inl err, w0) \<Rightarrow> (Inl err, w0)
      | (Inr info, w0) \<Rightarrow>
          (case NewRequest e ''GET'' (BaseURI info @ ''/client/invoices/'' @ ClientKey i @ ''.pdf'')
                  NoBody of
             Inl err \<Rightarrow> (Inl err, w0)
           | Inr req \<Rightarrow>
               (let w1 = bucket_Wait (bucket (clients w0 (Hv i))) 1 w0;
                    (r, w2) = client_Do e req w1
                in case r of
                     Inl err \<Rightarrow> (Inl err, w2)
                   | Inr resp \<Rightarrow>
                       if StatusCode resp \<noteq> StatusOK
                       then (Inl (Failed ''Failed to download PDF'' (StatusCode resp)), w2)
                       else (Inr (Body resp), w2))))"

definition GetAttachments :: "env \<Rightarrow> Invoice \<Rightarrow> world \<Rightarrow> (error + Attachment list) \<times> world" where
  "GetAttachments e i w =
     (case GetCompanyInfo e (Hv i) w of
        (Inl err, w0) \<Rightarrow> (Inl err, w0)
      | (Inr info, w0) \<Rightarrow>
          (case NewRequest e ''GET'' (BaseURI info @ ''/client/invoices/'' @ ClientKey i) NoBody of
             Inl err \<Rightarrow> (Inl err, w0)
           | Inr req \<Rightarrow>
               (let w1 = bucket_Wait (bucket (clients w0 (Hv i))) 1 w0;
                    (r, w2) = client_Do e req w1
                in case r of
                     Inl err \<Rightarrow> (Inl err, w2)
                   | Inr resp \<Rightarrow>
                       if StatusCode resp \<noteq> StatusOK
                       then (Inl (Failed ''Failed to fetch attachments'' (StatusCode resp)), w2)
                       else
                         (case find_attachments e (Body resp) of
                            Inl err \<Rightarrow> (Inl err, w2)
                          | Inr links \<Rightarrow>
                              (Inr (map (\<lambda>(href, text).
                                           \<lparr>Path = href, Filename = text, Attachment_hv = Hv i\<rparr>) links),
                               w2)))))"

definition Attachment_Download :: "env \<Rightarrow> Attachment \<Rightarrow> world \<Rightarrow> (error + string) \<times> world" where
  "Attachment_Download e a w =
     (case GetCompanyInfo e (Attachment_hv a) w of
        (Inl err, w0) \<Rightarrow> (Inl err, w0)
      | (Inr info, w0) \<Rightarrow>
          (case NewRequest e ''GET'' (BaseURI info @ Path a) NoBody of
             Inl err \<Rightarrow> (Inl err, w0)
           | Inr req \<Rightarrow>
               (let w1 = bucket_Wait (bucket (clients w0 (Attachment_hv a))) 1 w0;
                    (r, w2) = client_Do e req w1
                in case r of
                     Inl err \<Rightarrow> (Inl err, w2)
                   | Inr resp \<Rightarrow>
                       if StatusCode resp \<noteq> StatusOK
                       then (Inl (Failed ''Failed to download attachment'' (StatusCode resp)), w2)
                       else (Inr (Body resp), w2))))"

section \<open>The streaming upload\<close>

text \<open>
  \<open>CreateExpense\<close> starts two goroutines joined by an \<open>io.Pipe\<close>. Each of them is modelled
  as the sequential function it is; how the scheduler interleaves them is not.

  The encoder sees the pipe from its write end: the bytes the reader has taken so far,
  how many more it takes before it closes its end (\<open>None\<close>: it reads to the end), and
  whether the write end has been closed. A write to a pipe whose reader has gone fails,
  after passing the bytes the reader still took.
\<close>

record pipe =
  written :: string
  reader_budget :: "nat option"
  write_closed :: bool

definition pw_Write :: "string \<Rightarrow> pipe \<Rightarrow> error option \<times> pipe" where
  "pw_Write d p =
     (case reader_budget p of
        None \<Rightarrow> (None, p\<lparr>written := written p @ d\<rparr>)
      | Some k \<Rightarrow>
          if k = 0 then (Some WriteError, p)
          else if length d \<le> k
          then (None, p\<lparr>written := written p @ d, reader_budget := Some (k - length d)\<rparr>)
          else (Some WriteError, p\<lparr>written := written p @ take k d, reader_budget := Some 0\<rparr>))"

definition pw_Close :: "pipe \<Rightarrow> pipe" where
  "pw_Close p = p\<lparr>write_closed := True\<rparr>"

text \<open>
  \<open>multipart.Writer\<close> of the Go library: the boundary, and the part handed out last with
  its \<open>closed\<close> flag and its sticky write error.
\<close>

record part =
  part_closed :: bool
  we :: "error option"

record encoder_state =
  boundary :: string
  lastpart :: "part option"
  pw :: pipe

definition CRLF :: string where
  "CRLF = [CHR 0x0D, CHR 0x0A]"

definition dquote :: char where
  "dquote = CHR 0x22"

definition backslash :: char where
  "backslash = CHR 0x5C"

definition escapeQuotes :: "string \<Rightarrow> string" where
  "escapeQuotes s =
     concat (map (\<lambda>ch. if ch = backslash then [backslash, backslash]
                        else if ch = dquote then [backslash, dquote] else [ch]) s)"

definition header_lines :: "(string \<times> string) list \<Rightarrow> string" where
  "header_lines h = concat (map (\<lambda>(k, v). k @ '': '' @ v @ CRLF) (sort_key fst h))"

definition CreatePart :: "(string \<times> string) list \<Rightarrow> encoder_state \<Rightarrow> error option \<times> encoder_state" where
  "CreatePart h st =
     (let st1 = (case lastpart st of
                   None \<Rightarrow> st
                 | Some p \<Rightarrow> st\<lparr>lastpart := Some (p\<lparr>part_closed := True\<rparr>)\<rparr>)
      in case (case lastpart st1 of None \<Rightarrow> None | Some p \<Rightarrow> we p) of
           Some err \<Rightarrow> (Some err, st1)
         | None \<Rightarrow>
             (let b = (if lastpart st1 \<noteq> None then CRLF @ ''--'' @ boundary st1 @ CRLF
                       else ''--'' @ boundary st1 @ CRLF)
                      @ header_lines h @ CRLF
              in case pw_Write b (pw st1) of
                   (Some err, p') \<Rightarrow> (Some err, st1\<lparr>pw := p'\<rparr>)
                 | (None, p') \<Rightarrow>
                     (None, st1\<lparr>pw := p', lastpart := Some \<lparr>part_closed = False, we = None\<rparr>\<rparr>)))"

definition CreateFormField :: "string \<Rightarrow> encoder_state \<Rightarrow> error option \<times> encoder_state" where
  "CreateFormField fieldname =
     CreatePart [(''Content-Disposition'', ''form-data; name='' @ [dquote] @ escapeQuotes fieldname @ [dquote])]"

text \<open>Writing to the part handed out last (\<open>fw.Write\<close>).\<close>

definition part_Write :: "string \<Rightarrow> encoder_state \<Rightarrow> error option \<times> encoder_state" where
  "part_Write d st =
     (case lastpart st of
        None \<Rightarrow> (Some WriteError, st)
      | Some p \<Rightarrow>
          if part_closed p then (Some WriteError, st)
          else
            (case pw_Write d (pw st) of
               (Some err, p') \<Rightarrow> (Some err, st\<lparr>pw := p', lastpart := Some (p\<lparr>we := Some err\<rparr>)\<rparr>)
             | (None, p') \<Rightarrow> (None, st\<lparr>pw := p'\<rparr>)))"

definition mp_Close :: "encoder_state \<Rightarrow> error option \<times> encoder_state" where
  "mp_Close st =
     (case (case lastpart st of None \<Rightarrow> None | Some p \<Rightarrow> we p) of
        Some err \<Rightarrow> (Some err, st\<lparr>lastpart := map_option (\<lambda>p. p\<lparr>part_closed := True\<rparr>) (lastpart st)\<rparr>)
      | None \<Rightarrow>
          (case pw_Write (CRLF @ ''--'' @ boundary st @ ''--'' @ CRLF) (pw st) of
             (err, p') \<Rightarrow> (err, st\<lparr>pw := p', lastpart := None\<rparr>)))"

definition tspecials :: string where
  "tspecials = ''()<>@,;:'' @ [backslash, dquote] @ ''/[]?= ''"

definition FormDataContentType :: "string \<Rightarrow> string" where
  "FormDataContentType b =
     ''multipart/form-data; boundary='' @
       (if \<exists>ch \<in> set b. ch \<in> set tspecials then [dquote] @ b @ [dquote] else b)"

text \<open>
  The byte source \<open>e.File\<close>: the bytes it delivers, and whether it then ends with a read
  error instead of the end of the file. (A source that never ends is not modelled.)
  \<open>io.Copy\<close> writes what it has read and reports the first error of either side.
\<close>

record reader =
  reader_content :: string
  read_fails :: bool

definition io_Copy :: "reader \<Rightarrow> encoder_state \<Rightarrow> error option \<times> encoder_state" where
  "io_Copy src st =
     (case (if reader_content src = [] then (None, st) else part_Write (reader_content src) st) of
        (Some err, st') \<Rightarrow> (Some err, st')
      | (None, st') \<Rightarrow> (if read_fails src then Some ReadError else None, st'))"

record 'f CreateExpense =
  ProjectID :: int
  ExpenseCategoryID :: int
  SpentDate :: string
  TotalCost :: 'f
  Notes :: string
  Filename :: string
  ContentType :: string
  File :: "reader option"

text \<open>The loop over the five scalar fields: the first failing call ends the goroutine.\<close>

fun write_fields :: "(string \<times> string) list \<Rightarrow> encoder_state \<Rightarrow> error option \<times> encoder_state" where
  "write_fields [] st = (None, st)"
| "write_fields (f # fs) st =
     (case CreateFormField (fst f) st of
        (Some err, st1) \<Rightarrow> (Some err, st1)
      | (None, st1) \<Rightarrow>
          (case part_Write (snd f) st1 of
             (Some err, st2) \<Rightarrow> (Some err, st2)
           | (None, st2) \<Rightarrow> write_fields fs st2))"

definition expense_fields :: "('f \<Rightarrow> string) \<Rightarrow> 'f CreateExpense \<Rightarrow> (string \<times> string) list" where
  "expense_fields format_g job =
     [(''spent_date'', SpentDate job),
      (''project_id'', FormatInt (ProjectID job)),
      (''expense_category_id'', FormatInt (ExpenseCategoryID job)),
      (''notes'', Notes job),
      (''total_cost'', format_g (TotalCost job))]"

definition receipt_header :: "'f CreateExpense \<Rightarrow> (string \<times> string) list" where
  "receipt_header job =
     AList.update ''Content-Type'' (ContentType job)
       (AList.update ''Content-Disposition''
          (''form-data; name='' @ [dquote] @ ''receipt'' @ [dquote] @ ''; filename='' @ [dquote]
             @ Filename job @ [dquote]) [])"

text \<open>
  The first goroutine. \<open>defer pw.Close()\<close> runs on every way out. \<open>%g\<close> of a float is a
  parameter.
\<close>

definition CreateExpense_encoder ::
  "('f \<Rightarrow> string) \<Rightarrow> 'f CreateExpense \<Rightarrow> encoder_state \<Rightarrow> error option \<times> encoder_state" where
  "CreateExpense_encoder format_g job st =
     (case
        (case write_fields (expense_fields format_g job) st of
           (Some err, st1) \<Rightarrow> (Some err, st1)
         | (None, st1) \<Rightarrow>
             (case File job of
                None \<Rightarrow> mp_Close st1
              | Some src \<Rightarrow>
                  (case CreatePart (receipt_header job) st1 of
                     (Some err, st2) \<Rightarrow> (Some err, st2)
                   | (None, st2) \<Rightarrow>
                       (case io_Copy src st2 of
                          (Some err, st3) \<Rightarrow> (Some err, st3)
                        | (None, st3) \<Rightarrow> mp_Close st3))))
      of (err, st') \<Rightarrow> (err, st'\<lparr>pw := pw_Close (pw st')\<rparr>))"

text \<open>
  \<open>io.Pipe()\<close> and \<open>multipart.NewWriter(pw)\<close>: the boundary is drawn at random by the
  library on every call, so it is an argument here.
\<close>

definition NewWriter :: "string \<Rightarrow> nat option \<Rightarrow> encoder_state" where
  "NewWriter b budget =
     \<lparr>boundary = b, lastpart = None,
      pw = \<lparr>written = [], reader_budget = budget, write_closed = False\<rparr>\<rparr>"

text \<open>
  The second goroutine. Its deferred function copies the rest of the pipe to \<open>io.Discard\<close>
  when the named result \<open>err\<close> is not nil: the second component of the result says whether
  that drain ran.
\<close>

definition CreateExpense_transmitter ::
  "env \<Rightarrow> addr \<Rightarrow> string \<Rightarrow> world \<Rightarrow> (error option \<times> bool) \<times> world" where
  "CreateExpense_transmitter e hv b w =
     (case
        (case NewRequest e ''POST'' (serverUrl @ ''/expenses'') PipeBody of
           Inl err \<Rightarrow> (Some err, w)
         | Inr req0 \<Rightarrow>
             (let req = auth_headers (clients w hv)
                          (Header_Set ''Content-Type'' (FormDataContentType b) req0);
                  w1 = bucket_Wait (bucket (clients w hv)) 1 w;
                  (r, w2) = client_Do e req w1
              in case r of
                   Inl err \<Rightarrow> (Some err, w2)
                 | Inr resp \<Rightarrow>
                     if StatusCode resp \<noteq> StatusCreated
                     then (Some (FailedBody ''Failed to create expense'' (StatusCode resp) (Body resp)), w2)
                     else (None, w2)))
      of (err, w') \<Rightarrow> ((err, err \<noteq> None), w'))"

text \<open>
  \<open>g.Wait()\<close> of the error group returns the error that was recorded first. Which of two
  failing goroutines comes first is a choice of the scheduler.
\<close>

definition g_Wait :: "bool \<Rightarrow> error option \<Rightarrow> error option \<Rightarrow> error option" where
  "g_Wait encoder_first enc_err tx_err =
     (case enc_err of
        None \<Rightarrow> tx_err
      | Some x \<Rightarrow>
          (case tx_err of
             None \<Rightarrow> Some x
           | Some y \<Rightarrow> if encoder_first then Some x else Some y))"

text \<open>
  \<open>CreateExpense\<close> itself: one pipe and one \<open>multipart.Writer\<close> \<open>mp\<close> are made, the encoder
  writes through \<open>mp\<close>, the transmitter asks the same \<open>mp\<close> for its content type, and the
  errors are joined. What the run leaves open is given as arguments: the boundary the
  library draws, how much of the pipe the reader takes, and whose error comes first. The
  result is the error returned, the final state of the writer with its pipe, whether the
  transmitter drained the pipe, and the world.
\<close>

definition CreateExpense ::
  "env \<Rightarrow> ('f \<Rightarrow> string) \<Rightarrow> addr \<Rightarrow> 'f CreateExpense \<Rightarrow> string \<Rightarrow> nat option \<Rightarrow> bool \<Rightarrow> world
     \<Rightarrow> (error option \<times> encoder_state \<times> bool) \<times> world" where
  "CreateExpense e format_g hv job b budget encoder_first w =
     (let mp = NewWriter b budget;
          (enc_err, st) = CreateExpense_encoder format_g job mp;
          ((tx_err, drained), w') = CreateExpense_transmitter e hv (boundary mp) w
      in ((g_Wait encoder_first enc_err tx_err, st, drained), w'))"

section \<open>Vocabulary of the properties\<close>

subsection \<open>Pages served and consumers\<close>

text \<open>The two effects of one page fetch, and of several in a row.\<close>

definition fetch_events :: "Client \<Rightarrow> string \<Rightarrow> event list" where
  "fetch_events c u = [Wait (bucket c) 1, Do (page_request c u)]"

definition fetches :: "Client \<Rightarrow> string list \<Rightarrow> event list" where
  "fetches c us = concat (map (fetch_events c) us)"

text \<open>
  The server holds the page \<open>(items, next)\<close> at \<open>u\<close>: whenever the client \<open>c\<close> asks for
  \<open>u\<close>, the answer decodes without error to these elements and this link.
\<close>

definition serves ::
  "env \<Rightarrow> 'a elem_type \<Rightarrow> Client \<Rightarrow> addr \<Rightarrow> string \<Rightarrow> string \<Rightarrow> 'a list \<Rightarrow> string \<Rightarrow> bool" where
  "serves e T c hv field u items next \<longleftrightarrow>
     parse_url_ok e u \<and>
     (\<forall>tr. \<exists>resp. transport e tr (page_request c u) = Inr resp \<and>
        decode_page e T hv u field resp = Returns (items, next, None))"

text \<open>
  A finite chain of pages from \<open>u\<close> on: each page is held at the link of the one before,
  and the last page has no link.
\<close>

fun chain ::
  "env \<Rightarrow> 'a elem_type \<Rightarrow> Client \<Rightarrow> addr \<Rightarrow> string \<Rightarrow> string \<Rightarrow> ('a list \<times> string) list \<Rightarrow> bool" where
  "chain e T c hv field u [] = (u = [])"
| "chain e T c hv field u (p # ps) =
     (u \<noteq> [] \<and> serves e T c hv field u (fst p) (snd p) \<and> chain e T c hv field (snd p) ps)"

definition page_urls :: "string \<Rightarrow> ('a list \<times> string) list \<Rightarrow> string list" where
  "page_urls u ps = u # map snd ps"

text \<open>
  Handing a buffer to a consumer, element by element, until it declines: whether it
  stopped, its state, and what is left of the buffer.
\<close>

fun feed :: "('a, 'c) yield \<Rightarrow> 'c \<Rightarrow> 'a list \<Rightarrow> bool \<times> 'c \<times> 'a list" where
  "feed y c [] = (False, c, [])"
| "feed y c (x # xs) =
     (case y c (Some x, None) of
        (go_on, c') \<Rightarrow> if go_on then feed y c' xs else (True, c', xs))"

text \<open>
  The same walk over a chain of pages: the buffer and link left, the consumer's state and
  the number of pages visited.
\<close>

fun run_chain ::
  "('a, 'c) yield \<Rightarrow> 'c \<Rightarrow> string \<Rightarrow> ('a list \<times> string) list \<Rightarrow> ('a list \<times> string) \<times> 'c \<times> nat" where
  "run_chain y c u [] = (([], u), c, 0)"
| "run_chain y c u (p # ps) =
     (case feed y c (fst p) of
        (True, c', rest) \<Rightarrow> ((rest, snd p), c', 1)
      | (False, c', rest) \<Rightarrow>
          if fst p = [] then (([], snd p), c', 1)
          else (case run_chain y c' (snd p) ps of (cur, c'', n) \<Rightarrow> (cur, c'', Suc n)))"

text \<open>
  Two consumers that log every pair they are handed: one never stops, the other stops
  on the \<open>m\<close>-th pair.
\<close>

definition collect :: "('a, ('a option \<times> error option) list) yield" where
  "collect c x = (True, c @ [x])"

definition take_first :: "nat \<Rightarrow> ('a, ('a option \<times> error option) list) yield" where
  "take_first m c x = (Suc (length c) < m, c @ [x])"

definition elems :: "'a list \<Rightarrow> ('a option \<times> error option) list" where
  "elems xs = map (\<lambda>x. (Some x, None)) xs"

text \<open>The pages up to the first empty one, and how many pages that walk visits.\<close>

definition delivered :: "('a list \<times> string) list \<Rightarrow> 'a list" where
  "delivered ps = concat (takeWhile (\<lambda>items. items \<noteq> []) (map fst ps))"

definition fetched :: "('a list \<times> string) list \<Rightarrow> nat" where
  "fetched ps = min (Suc (length (takeWhile (\<lambda>items. items \<noteq> []) (map fst ps)))) (length ps)"

text \<open>How many pages of the given sizes hold the first \<open>r\<close> elements.\<close>

fun needed :: "nat \<Rightarrow> nat list \<Rightarrow> nat" where
  "needed r [] = 0"
| "needed r (s # ss) = (if r \<le> s then 1 else Suc (needed (r - s) ss))"

subsection \<open>The next link as the specification reads it\<close>

text \<open>
  \<open>links.next\<close> of an envelope: the string under the key \<open>next\<close> of the \<open>links\<close> object
  (the last one, should the key be repeated), and the empty string when there is none.
\<close>

definition next_strings :: "(string \<times> json) list \<Rightarrow> string list" where
  "next_strings l =
     concat (map (\<lambda>kv. case snd kv of
                          JStr s \<Rightarrow> (if key_matches ''next'' (fst kv) then [s] else [])
                        | _ \<Rightarrow> []) l)"

definition links_next :: "json \<Rightarrow> string" where
  "links_next lk =
     (case lk of
        JObj l \<Rightarrow> (if next_strings l = [] then [] else last (next_strings l))
      | _ \<Rightarrow> [])"

subsection \<open>Rate limiting\<close>

text \<open>The request that \<open>GetCompanyInfo\<close> sends on behalf of a client.\<close>

definition company_request :: "Client \<Rightarrow> request" where
  "company_request c =
     auth_headers c \<lparr>Method = ''GET'', URL = serverUrl @ ''/company'', Header = [], ReqBody = NoBody\<rparr>"


text \<open>
  A stretch of history in which every request comes right after the acquisition of one
  token of the bucket \<open>b\<close>, and nothing else happens.
\<close>

fun gated :: "addr \<Rightarrow> event list \<Rightarrow> bool" where
  "gated b [] = True"
| "gated b (Wait b' n # Do r # es) = (b' = b \<and> n = 1 \<and> gated b es)"
| "gated b (ev # es) = False"

text \<open>
  From the world \<open>w\<close> to the world \<open>w'\<close> the client at \<open>hv\<close> was rate limited: what
  was added to the history is such a stretch for its bucket, and no client has been given
  another bucket.
\<close>

definition rate_limited :: "addr \<Rightarrow> world \<Rightarrow> world \<Rightarrow> bool" where
  "rate_limited hv w w' \<longleftrightarrow>
     (\<exists>evs. trace w' = trace w @ evs \<and> gated (bucket (clients w hv)) evs)
     \<and> (\<forall>a. bucket (clients w' a) = bucket (clients w a))"

subsection \<open>The multipart body as the specification reads it\<close>








section \<open>A sample account\<close>

text \<open>
  A small server used to run the definitions: the invoices of five customers, listed
  under \<open>/invoices?client_id=N\<close>. Customer 1 has two pages, \<open>[A, B]\<close> and \<open>[C]\<close>; customer 2
  has an empty first page that links to a page holding \<open>[C]\<close>; customer 3 has the pages
  \<open>[A]\<close>, \<open>[]\<close> and \<open>[B]\<close>; the listing of customer 4 answers with status 500; customer 5
  has one page without a \<open>links\<close> object. Customer 1 is also listed under \<open>/customers\<close>
  (with a link to a second page) and has one expense. The body of an answer is the URL
  asked for, which the sample parser turns into the JSON of that page.
\<close>

definition sample_Encode :: "Values \<Rightarrow> string" where
  "sample_Encode vs = concat (map (\<lambda>(k, v). k @ ''='' @ concat v) vs)"

definition inv :: "string \<Rightarrow> json" where
  "inv key = JObj [(''client_key'', JStr key)]"

definition sample_um :: "json \<Rightarrow> Invoice option" where
  "sample_um j =
     (case j of
        JObj [(k, JStr s)] \<Rightarrow> Some \<lparr>ID = 0, ClientKey = s, Hv = 0\<rparr>
      | _ \<Rightarrow> None)"



definition invoice :: "string \<Rightarrow> Invoice" where
  "invoice key = \<lparr>ID = 0, ClientKey = key, Hv = 0\<rparr>"

definition page_json :: "json list \<Rightarrow> json \<Rightarrow> json" where
  "page_json items next = JObj [(''invoices'', JArr items), (''links'', JObj [(''next'', next)])]"

definition listing :: "string \<Rightarrow> string" where
  "listing q = serverUrl @ ''/invoices?client_id='' @ q"

definition sample_site :: "(string \<times> json) list" where
  "sample_site =
     [(listing ''1'', page_json [inv ''A'', inv ''B''] (JStr (listing ''1&page=2''))),
      (listing ''1&page=2'', page_json [inv ''C''] JNull),
      (listing ''2'', page_json [] (JStr (listing ''2&page=2''))),
      (listing ''2&page=2'', page_json [inv ''C''] JNull),
      (listing ''3'', page_json [inv ''A''] (JStr (listing ''3&page=2''))),
      (listing ''3&page=2'', page_json [] (JStr (listing ''3&page=3''))),
      (listing ''3&page=3'', page_json [inv ''B''] JNull),
      (listing ''5'', JObj [(''invoices'', JArr [inv ''A''])]),
      (serverUrl @ ''/customers?client_id=1'',
       JObj [(''customers'', JArr [JObj [(''name'', JStr ''Acme'')]]),
             (''links'', JObj [(''next'', JStr (serverUrl @ ''/customers?client_id=1&page=2''))])]),
      (serverUrl @ ''/expenses?client_id=1'',
       JObj [(''expenses'', JArr [JObj [(''notes'', JStr ''taxi'')]]), (''links'', JObj [])])]"

definition sample_company :: Company where
  "sample_company =
     \<lparr>BaseURI = ''https://sample.harvestapp.com'', FullDomain = ''sample.harvestapp.com'',
      Name = ''Sample'', IsActive = True, WeekStartDay = ''Monday'',
      WantsTimestampTimers = False, TimeFormat = ''hours_minutes'', PlanType = ''solo'',
      ExpenseFeature = True, InvoiceFeature = True, EstimateFeature = False,
      ApprovalFeature = False, Clock = ''24h'', DecimalSymbol = ''.'',
      ThousandsSeparator = '','', ColorScheme = ''orange''\<rparr>"

definition sample_transport :: "event list \<Rightarrow> request \<Rightarrow> error + response" where
  "sample_transport tr req =
     (if URL req = listing ''4'' then Inr \<lparr>StatusCode = 500, Body = []\<rparr>
      else if Method req = ''POST'' then Inr \<lparr>StatusCode = 201, Body = []\<rparr>
      else Inr \<lparr>StatusCode = 200, Body = URL req\<rparr>)"

definition sample_env :: env where
  "sample_env =
     \<lparr>transport = sample_transport,
      parse_url_ok = (\<lambda>u. True),
      parse_json = map_of sample_site,
      decode_company = (\<lambda>b. if b = serverUrl @ ''/company'' then Inr sample_company else Inl SyntaxError),
      decode_contacts = (\<lambda>b. Inr []),
      values_Encode = sample_Encode,
      find_attachments = (\<lambda>b. Inr []),
      cookiejar_New = None\<rparr>"

definition sample_client :: Client where
  "sample_client = \<lparr>accountID = 42, token = ''secret'', company = None, bucket = 1\<rparr>"

definition sample_world :: world where
  "sample_world =
     \<lparr>clients = (\<lambda>a. sample_client), buckets = [1 \<mapsto> (150000000, 100)], heap_top = 2, trace = []\<rparr>"


section \<open>The paginated sequence: one step, one page, a chain of pages\<close>

lemma fetchAll_serves:
  assumes "serves e T c hv field u items next" and "clients w hv = c"
  shows "fetchAll e T hv u field w =
           (Returns (items, next, None), w\<lparr>trace := trace w @ fetch_events c u\<rparr>)"
proof -
  from assms(1) have ok: "parse_url_ok e u" by (simp add: serves_def)
  from assms(1) obtain resp where
    r: "transport e (trace w @ [Wait (bucket c) 1]) (page_request c u) = Inr resp"
    and d: "decode_page e T hv u field resp = Returns (items, next, None)"
    unfolding serves_def by blast
  show ?thesis
    using ok r d assms(2)
    by (simp add: fetchAll_def NewRequest_def bucket_Wait_def client_Do_def page_request_def
        fetch_events_def Let_def)
qed

text \<open>A buffer that is not empty is handed out without looking at the link.\<close>

lemma drain:
  "fetchIter_seq e T y (\<lparr>cur_hv = hv, cur_field = field, buf = b, url = u\<rparr>, c, w) =
     (case feed y c b of
        (True, c', rest) \<Rightarrow>
          Some (Returns (\<lparr>cur_hv = hv, cur_field = field, buf = rest, url = u\<rparr>, c'), w)
      | (False, c', rest) \<Rightarrow>
          fetchIter_seq e T y (\<lparr>cur_hv = hv, cur_field = field, buf = [], url = u\<rparr>, c', w))"
proof (induction b arbitrary: c)
  case Nil
  show ?case by simp
next
  case (Cons x xs)
  show ?case
    by (subst fetchIter_seq.simps) (simp add: refill_def Cons.IH split: prod.splits)
qed

lemma step_fetch:
  assumes "serves e T c hv field u items next" and "clients w hv = c" and "u \<noteq> []"
  shows "fetchIter_seq e T y (\<lparr>cur_hv = hv, cur_field = field, buf = [], url = u\<rparr>, cs, w) =
     (if items = []
      then Some (Returns (\<lparr>cur_hv = hv, cur_field = field, buf = [], url = next\<rparr>, cs),
                 w\<lparr>trace := trace w @ fetch_events c u\<rparr>)
      else
        (case feed y cs items of
           (True, c', rest) \<Rightarrow>
             Some (Returns (\<lparr>cur_hv = hv, cur_field = field, buf = rest, url = next\<rparr>, c'),
                   w\<lparr>trace := trace w @ fetch_events c u\<rparr>)
         | (False, c', rest) \<Rightarrow>
             fetchIter_seq e T y (\<lparr>cur_hv = hv, cur_field = field, buf = [], url = next\<rparr>, c',
               w\<lparr>trace := trace w @ fetch_events c u\<rparr>)))"
proof (cases items)
  case Nil
  then show ?thesis
    using assms(3)
    by (subst fetchIter_seq.simps) (simp add: refill_def fetchAll_serves [OF assms(1,2)])
next
  case (Cons x xs)
  then show ?thesis
    using assms(3)
    by (subst fetchIter_seq.simps)
       (simp add: refill_def fetchAll_serves [OF assms(1,2)] drain split: prod.splits)
qed

lemma step_end:
  "fetchIter_seq e T y (\<lparr>cur_hv = hv, cur_field = field, buf = [], url = []\<rparr>, cs, w) =
     Some (Returns (\<lparr>cur_hv = hv, cur_field = field, buf = [], url = []\<rparr>, cs), w)"
  by (subst fetchIter_seq.simps) (simp add: refill_def)

lemma seq_chain:
  assumes "chain e T c hv field u ps" and "clients w hv = c"
  shows "fetchIter_seq e T y (\<lparr>cur_hv = hv, cur_field = field, buf = [], url = u\<rparr>, cs, w) =
     (case run_chain y cs u ps of
        ((b, u'), c', n) \<Rightarrow>
          Some (Returns (\<lparr>cur_hv = hv, cur_field = field, buf = b, url = u'\<rparr>, c'),
                w\<lparr>trace := trace w @ fetches c (take n (page_urls u ps))\<rparr>))"
  using assms
proof (induction ps arbitrary: u cs w)
  case Nil
  then show ?case by (simp add: step_end fetches_def)
next
  case (Cons p ps)
  from Cons.prems have u: "u \<noteq> []" and s: "serves e T c hv field u (fst p) (snd p)"
    and ch: "chain e T c hv field (snd p) ps" by simp_all
  let ?w = "w\<lparr>trace := trace w @ fetch_events c u\<rparr>"
  have cw: "clients ?w hv = c" using Cons.prems(2) by simp
  note IH = Cons.IH [OF ch cw]
  show ?case
    by (auto simp add: step_fetch [OF s Cons.prems(2) u] IH fetches_def page_urls_def
        split: prod.splits bool.splits)
qed

subsection \<open>The two consumers\<close>

lemma feed_collect: "feed collect c xs = (False, c @ elems xs, [])"
  by (induction xs arbitrary: c) (simp_all add: collect_def elems_def)

lemma run_chain_collect:
  "run_chain collect c u ps =
     (([], page_urls u ps ! fetched ps), c @ elems (delivered ps), fetched ps)"
proof (induction ps arbitrary: c u)
  case Nil
  show ?case by (simp add: page_urls_def fetched_def delivered_def elems_def)
next
  case (Cons p ps)
  show ?case
    using Cons.IH [of "c @ elems (fst p)" "snd p"]
    by (simp add: feed_collect page_urls_def fetched_def delivered_def elems_def)
qed

lemma nonempty_pages:
  assumes "\<forall>p \<in> set ps. fst p \<noteq> []"
  shows "delivered ps = concat (map fst ps) \<and> fetched ps = length ps"
proof -
  have tw: "takeWhile (\<lambda>items. items \<noteq> []) (map fst ps) = map fst ps"
    using assms by (intro takeWhile_eq_all_conv [THEN iffD2]) auto
  show ?thesis unfolding delivered_def fetched_def tw by simp
qed

lemma feed_take_first:
  "length c < m \<Longrightarrow>
   feed (take_first m) c xs =
     (if length c + length xs < m then (False, c @ elems xs, [])
      else (True, c @ elems (take (m - length c) xs), drop (m - length c) xs))"
proof (induction xs arbitrary: c)
  case Nil
  then show ?case by (simp add: elems_def)
next
  case (Cons x xs)
  show ?case
  proof (cases "Suc (length c) < m")
    case True
    then show ?thesis
      using Cons.IH [of "c @ [(Some x, None)]"] Cons.prems
      by (auto simp add: take_first_def elems_def Suc_diff_le take_Cons' drop_Cons')
  next
    case False
    with Cons.prems have "m = Suc (length c)" by simp
    then show ?thesis by (simp add: take_first_def elems_def)
  qed
qed

lemma run_chain_take_first:
  assumes "length c < m" and "m \<le> length c + length (concat (map fst ps))"
    and "\<forall>p \<in> set ps. fst p \<noteq> []"
  shows "\<exists>b u'. run_chain (take_first m) c u ps =
           ((b, u'), c @ elems (take (m - length c) (concat (map fst ps))),
            needed (m - length c) (map (\<lambda>p. length (fst p)) ps))"
  using assms
proof (induction ps arbitrary: c u)
  case Nil
  then show ?case by simp
next
  case (Cons p ps)
  show ?case
  proof (cases "length c + length (fst p) < m")
    case True
    let ?c = "c @ elems (fst p)"
    have 1: "length ?c < m" using True by (simp add: elems_def)
    have 2: "m \<le> length ?c + length (concat (map fst ps))"
      using Cons.prems(2) by (simp add: elems_def)
    have 3: "\<forall>p \<in> set ps. fst p \<noteq> []" using Cons.prems(3) by simp
    from Cons.IH [OF 1 2 3, of "snd p"] obtain b u' where
      r: "run_chain (take_first m) ?c (snd p) ps =
           ((b, u'), ?c @ elems (take (m - length ?c) (concat (map fst ps))),
            needed (m - length ?c) (map (\<lambda>p. length (fst p)) ps))" by blast
    have ne: "fst p \<noteq> []" using Cons.prems(3) by simp
    have len: "length ?c = length c + length (fst p)" by (simp add: elems_def)
    have nle: "\<not> m - length c \<le> length (fst p)" using True by arith
    have sub: "m - length c - length (fst p) = m - (length c + length (fst p))" by arith
    show ?thesis
      using True ne r Cons.prems(1) nle
      by (simp add: feed_take_first len elems_def sub)
  next
    case False
    then have le: "m - length c \<le> length (fst p)" by arith
    show ?thesis
      using False Cons.prems(1) le
      by (simp add: feed_take_first elems_def)
  qed
qed

lemma ceil_one: "0 < r \<Longrightarrow> r \<le> k \<Longrightarrow> (r + k - 1) div k = (1::nat)"
  by (rule div_nat_eqI) simp_all

lemma ceil_step:
  assumes k: "0 < k" and r: "k < r"
  shows "Suc ((r - k + k - 1) div k) = (r + k - 1) div (k::nat)"
proof -
  have e1: "r + k - 1 = (r - 1) + k" using k r by arith
  have e2: "r - k + k - 1 = r - 1" using r by arith
  have "k \<noteq> 0" using k by simp
  then have "((r - 1) + k) div k = (r - 1) div k + 1" by (rule div_add_self2)
  then have "((r - 1) + k) div k = Suc ((r - 1) div k)" by (simp only: Suc_eq_plus1)
  then show ?thesis by (simp only: e1 e2)
qed

lemma needed_uniform:
  assumes "0 < k" and "\<forall>s \<in> set (butlast ss). s = k" and "ss \<noteq> []"
    and "0 < last ss" and "last ss \<le> k" and "0 < r" and "r \<le> sum_list ss"
  shows "needed r ss = (r + k - 1) div k"
  using assms
proof (induction ss arbitrary: r)
  case Nil
  then show ?case by simp
next
  case (Cons s ss)
  show ?case
  proof (cases "r \<le> s")
    case True
    have "s \<le> k" using Cons.prems(2,5) by (cases "ss = []") simp_all
    with True have "r \<le> k" by simp
    with Cons.prems(6) have "(r + k - 1) div k = 1" by (rule ceil_one)
    with True show ?thesis by simp
  next
    case False
    then have ne: "ss \<noteq> []" using Cons.prems(7) by auto
    then have s: "s = k" using Cons.prems(2) by simp
    have a: "\<forall>s \<in> set (butlast ss). s = k" using Cons.prems(2) ne by simp
    have b: "0 < last ss" "last ss \<le> k" using Cons.prems(4,5) ne by simp_all
    have c: "0 < r - k" "r - k \<le> sum_list ss" using False s Cons.prems(7) by simp_all
    have "needed (r - k) ss = (r - k + k - 1) div k"
      by (rule Cons.IH [OF Cons.prems(1) a ne b c])
    moreover have "Suc ((r - k + k - 1) div k) = (r + k - 1) div k"
      using False s Cons.prems(1) by (intro ceil_step) simp_all
    ultimately show ?thesis using False s by simp
  qed
qed

text \<open>Every error path of \<open>fetchAll\<close> returns no elements and no link.\<close>

lemma fetchAll_error_shape:
  assumes "fetchAll e T hv u field w = (Returns (items, next, Some err), w')"
  shows "items = [] \<and> next = []"
  using assms
  by (auto simp add: fetchAll_def decode_page_def Let_def client_Do_def
      split: sum.splits if_splits prod.splits)

lemma chain_last: "chain e T c hv field u ps \<Longrightarrow> page_urls u ps ! length ps = []"
  by (induction ps arbitrary: u) (simp_all add: page_urls_def)

subsection \<open>Facts about the sample account\<close>

lemma listing_ne: "listing q \<noteq> []"
  by (simp add: listing_def serverUrl_def)

lemma listing_inj: "listing q = listing q' \<longleftrightarrow> q = q'"
  by (simp add: listing_def)

lemma key_next: "key_matches ''next'' ''next''"
  by (simp add: key_matches_def ascii_lower_def)

lemma start_url:
  "list_url sample_env ''invoices'' [WithClientID 1] = listing ''1''"
  "list_url sample_env ''invoices'' [WithClientID 2] = listing ''2''"
  "list_url sample_env ''invoices'' [WithClientID 3] = listing ''3''"
  "list_url sample_env ''invoices'' [WithClientID 4] = listing ''4''"
  "list_url sample_env ''invoices'' [WithClientID 5] = listing ''5''"
  by (simp_all add: list_url_def listing_def sample_env_def sample_Encode_def WithClientID_def
      Values_Set_def FormatInt_def digits.simps digit_char_def)

lemmas sample_simps =
  serves_def sample_env_def sample_transport_def page_request_def auth_headers_def Header_Set_def
  decode_page_def StatusOK_def Decode_map_def sample_site_def listing_inj page_json_def
  Unmarshal_links_def next_values_def key_next is_string_or_null_def final_Next_def
  Unmarshal_results_def Unmarshal_elem_def Invoice_T_def sample_um_def inv_def invoice_def

lemma sample_serves:
  "serves sample_env (Invoice_T sample_um) sample_client 0 ''invoices'' (listing ''1'')
     [invoice ''A'', invoice ''B''] (listing ''1&page=2'')"
  "serves sample_env (Invoice_T sample_um) sample_client 0 ''invoices'' (listing ''1&page=2'')
     [invoice ''C''] []"
  "serves sample_env (Invoice_T sample_um) sample_client 0 ''invoices'' (listing ''2'')
     [] (listing ''2&page=2'')"
  "serves sample_env (Invoice_T sample_um) sample_client 0 ''invoices'' (listing ''2&page=2'')
     [invoice ''C''] []"
  "serves sample_env (Invoice_T sample_um) sample_client 0 ''invoices'' (listing ''3'')
     [invoice ''A''] (listing ''3&page=2'')"
  "serves sample_env (Invoice_T sample_um) sample_client 0 ''invoices'' (listing ''3&page=2'')
     [] (listing ''3&page=3'')"
  "serves sample_env (Invoice_T sample_um) sample_client 0 ''invoices'' (listing ''3&page=3'')
     [invoice ''B''] []"
  by (simp_all add: sample_simps)

lemma sample_chain_1:
  "chain sample_env (Invoice_T sample_um) sample_client 0 ''invoices'' (listing ''1'')
     [([invoice ''A'', invoice ''B''], listing ''1&page=2''), ([invoice ''C''], [])]"
  by (simp add: sample_serves listing_ne)

lemma sample_chain_3:
  "chain sample_env (Invoice_T sample_um) sample_client 0 ''invoices'' (listing ''3'')
     [([invoice ''A''], listing ''3&page=2''), ([], listing ''3&page=3''), ([invoice ''B''], [])]"
  by (simp add: sample_serves listing_ne)

lemma sample_clients: "clients sample_world a = sample_client"
  by (simp add: sample_world_def)

section \<open>Claims about the paginated sequence\<close>

text \<open>
  Claim C1, as amended. The claim says that an empty page with a next link makes the
  sequence go on to the linked page, and that the sequence ends only with an empty buffer
  and no link left. The loop tests \<open>len(buf) == 0\<close> right after the refill, so: when a
  fetched page holds zero elements, the run ends right after that one fetch, whatever its
  next link is; the link is stored in the cursor, it is not fetched, and the consumer is
  not called. With an empty buffer and no link, the run ends without any request. The
  link of a page is followed after a page that held at least one element.
\<close>

theorem empty_page_ends_run:
  assumes "serves e T c hv field u [] next" and "clients w hv = c" and "u \<noteq> []"
    and "serves e T c hv field v its nxt" and "v \<noteq> []" and "its \<noteq> []"
  shows "fetchIter_seq e T y (\<lparr>cur_hv = hv, cur_field = field, buf = [], url = u\<rparr>, cs, w) =
           Some (Returns (\<lparr>cur_hv = hv, cur_field = field, buf = [], url = next\<rparr>, cs),
                 w\<lparr>trace := trace w @ fetch_events c u\<rparr>)
       \<and> fetchIter_seq e T y (\<lparr>cur_hv = hv, cur_field = field, buf = [], url = []\<rparr>, cs, w) =
           Some (Returns (\<lparr>cur_hv = hv, cur_field = field, buf = [], url = []\<rparr>, cs), w)
       \<and> fetchIter_seq e T collect (\<lparr>cur_hv = hv, cur_field = field, buf = [], url = v\<rparr>, lg, w) =
           fetchIter_seq e T collect (\<lparr>cur_hv = hv, cur_field = field, buf = [], url = nxt\<rparr>,
             lg @ elems its, w\<lparr>trace := trace w @ fetch_events c v\<rparr>)"
  using step_fetch [OF assms(1,2,3), where y = y and cs = cs]
    step_end [where e = e and T = T and y = y and hv = hv and field = field and cs = cs and w = w]
    step_fetch [OF assms(4) assms(2) assms(5), where y = collect and cs = lg] assms(6)
  by (simp add: feed_collect)

theorem empty_page_ends_run_witness:
  "serves sample_env (Invoice_T sample_um) sample_client 0 ''invoices'' (listing ''2'') [] (listing ''2&page=2'')
   \<and> clients sample_world 0 = sample_client \<and> listing ''2'' \<noteq> []
   \<and> serves sample_env (Invoice_T sample_um) sample_client 0 ''invoices'' (listing ''1'')
        [invoice ''A'', invoice ''B''] (listing ''1&page=2'')
   \<and> fetchIter_seq sample_env (Invoice_T sample_um) collect
        (\<lparr>cur_hv = 0, cur_field = ''invoices'', buf = [], url = listing ''2''\<rparr>, [], sample_world) =
        Some (Returns (\<lparr>cur_hv = 0, cur_field = ''invoices'', buf = [], url = listing ''2&page=2''\<rparr>, []),
              sample_world\<lparr>trace := trace sample_world @ fetch_events sample_client (listing ''2'')\<rparr>)"
  using empty_page_ends_run [OF sample_serves(3) sample_clients listing_ne sample_serves(1) listing_ne,
      where y = collect and cs = "[]" and lg = "[]"]
  by (simp add: sample_serves sample_clients listing_ne)

text \<open>
  Claim C1 as stated fails on the sample account: the first page of customer 2 is empty
  and links to a page that holds \<open>C\<close>; the run ends after one fetch, with the link still
  in the cursor and nothing handed to the consumer.
\<close>

theorem empty_linked_page_not_followed:
  "serves sample_env (Invoice_T sample_um) sample_client 0 ''invoices'' (listing ''2'') [] (listing ''2&page=2'')
   \<and> listing ''2&page=2'' \<noteq> []
   \<and> serves sample_env (Invoice_T sample_um) sample_client 0 ''invoices'' (listing ''2&page=2'') [invoice ''C''] []
   \<and> fetchIter_seq sample_env (Invoice_T sample_um) collect (Invoices sample_env 0 [WithClientID 2], [], sample_world) =
        Some (Returns (\<lparr>cur_hv = 0, cur_field = ''invoices'', buf = [], url = listing ''2&page=2''\<rparr>, []),
              sample_world\<lparr>trace := [Wait 1 1, Do (page_request sample_client (listing ''2''))]\<rparr>)"
proof -
  have run: "fetchIter_seq sample_env (Invoice_T sample_um) collect
      (\<lparr>cur_hv = 0, cur_field = ''invoices'', buf = [], url = listing ''2''\<rparr>, [], sample_world) =
      Some (Returns (\<lparr>cur_hv = 0, cur_field = ''invoices'', buf = [], url = listing ''2&page=2''\<rparr>, []),
            sample_world\<lparr>trace := trace sample_world @ fetch_events sample_client (listing ''2'')\<rparr>)"
    using step_fetch [OF sample_serves(3) sample_clients listing_ne, where y = collect and cs = "[]"]
    by simp
  have tr: "trace sample_world @ fetch_events sample_client (listing ''2'') =
      [Wait 1 1, Do (page_request sample_client (listing ''2''))]"
    by (simp add: sample_world_def fetch_events_def sample_client_def)
  show ?thesis
    using run
    by (simp only: tr sample_serves listing_ne Invoices_def fetchIter_def start_url simp_thms)
qed

text \<open>
  Claim C2, as amended. For every finite chain of pages, pulling the sequence to the end
  hands the consumer the elements of the pages in order, front to back and page after
  page, up to the first empty page, and fetches exactly those pages and that empty page
  (if there is one); the run ends. When no page is empty this is every element of every
  page, exactly one fetch per page, and no link is left in the cursor: the pages
  \<open>[A, B]\<close> then \<open>[C]\<close> give \<open>A, B, C\<close> and the end with exactly two fetches.
\<close>

theorem exhaustive_pull:
  assumes "chain e T c hv field u ps" and "clients w hv = c"
  shows "fetchIter_seq e T collect (\<lparr>cur_hv = hv, cur_field = field, buf = [], url = u\<rparr>, [], w) =
           Some (Returns (\<lparr>cur_hv = hv, cur_field = field, buf = [],
                            url = page_urls u ps ! fetched ps\<rparr>, elems (delivered ps)),
                 w\<lparr>trace := trace w @ fetches c (take (fetched ps) (page_urls u ps))\<rparr>)
       \<and> ((\<forall>p \<in> set ps. fst p \<noteq> []) \<longrightarrow>
            delivered ps = concat (map fst ps) \<and> fetched ps = length ps
            \<and> page_urls u ps ! fetched ps = [])"
proof -
  have "fetchIter_seq e T collect (\<lparr>cur_hv = hv, cur_field = field, buf = [], url = u\<rparr>, [], w) =
           Some (Returns (\<lparr>cur_hv = hv, cur_field = field, buf = [],
                            url = page_urls u ps ! fetched ps\<rparr>, elems (delivered ps)),
                 w\<lparr>trace := trace w @ fetches c (take (fetched ps) (page_urls u ps))\<rparr>)"
    using seq_chain [OF assms, where y = collect and cs = "[]"]
    by (simp add: run_chain_collect)
  moreover have "(\<forall>p \<in> set ps. fst p \<noteq> []) \<longrightarrow>
            delivered ps = concat (map fst ps) \<and> fetched ps = length ps
            \<and> page_urls u ps ! fetched ps = []"
    using nonempty_pages [of ps] chain_last [OF assms(1)] by simp
  ultimately show ?thesis by blast
qed

theorem exhaustive_pull_witness:
  "chain sample_env (Invoice_T sample_um) sample_client 0 ''invoices'' (listing ''1'')
     [([invoice ''A'', invoice ''B''], listing ''1&page=2''), ([invoice ''C''], [])]
   \<and> clients sample_world 0 = sample_client
   \<and> fetchIter_seq sample_env (Invoice_T sample_um) collect
        (Invoices sample_env 0 [WithClientID 1], [], sample_world) =
        Some (Returns (\<lparr>cur_hv = 0, cur_field = ''invoices'', buf = [], url = []\<rparr>,
                       [(Some (invoice ''A''), None), (Some (invoice ''B''), None),
                        (Some (invoice ''C''), None)]),
              sample_world\<lparr>trace :=
                [Wait 1 1, Do (page_request sample_client (listing ''1'')),
                 Wait 1 1, Do (page_request sample_client (listing ''1&page=2''))]\<rparr>)"
proof -
  have tr: "trace sample_world = []" "bucket sample_client = 1"
    by (simp_all add: sample_world_def sample_client_def)
  have run: "fetchIter_seq sample_env (Invoice_T sample_um) collect
        (\<lparr>cur_hv = 0, cur_field = ''invoices'', buf = [], url = listing ''1''\<rparr>, [], sample_world) =
        Some (Returns (\<lparr>cur_hv = 0, cur_field = ''invoices'', buf = [], url = []\<rparr>,
                       [(Some (invoice ''A''), None), (Some (invoice ''B''), None),
                        (Some (invoice ''C''), None)]),
              sample_world\<lparr>trace :=
                [Wait 1 1, Do (page_request sample_client (listing ''1'')),
                 Wait 1 1, Do (page_request sample_client (listing ''1&page=2''))]\<rparr>)"
    using exhaustive_pull [OF sample_chain_1 sample_clients]
    by (simp add: delivered_def fetched_def page_urls_def elems_def fetches_def fetch_events_def tr)
  show ?thesis
    unfolding Invoices_def fetchIter_def start_url
    by (intro conjI sample_chain_1 sample_clients run)
qed

text \<open>
  Claim C2 as stated fails on the sample account: customer 3 has the pages \<open>[A]\<close>, \<open>[]\<close>
  (with a link) and \<open>[B]\<close>. The claim asks for \<open>A, B\<close> and three fetches; the run hands out
  \<open>A\<close> only, with two fetches, and leaves the link to the third page in the cursor.
\<close>

theorem empty_middle_page_cuts_sequence:
  "chain sample_env (Invoice_T sample_um) sample_client 0 ''invoices'' (listing ''3'')
     [([invoice ''A''], listing ''3&page=2''), ([], listing ''3&page=3''), ([invoice ''B''], [])]
   \<and> fetchIter_seq sample_env (Invoice_T sample_um) collect
        (Invoices sample_env 0 [WithClientID 3], [], sample_world) =
        Some (Returns (\<lparr>cur_hv = 0, cur_field = ''invoices'', buf = [], url = listing ''3&page=3''\<rparr>,
                       [(Some (invoice ''A''), None)]),
              sample_world\<lparr>trace :=
                [Wait 1 1, Do (page_request sample_client (listing ''3'')),
                 Wait 1 1, Do (page_request sample_client (listing ''3&page=2''))]\<rparr>)"
proof -
  have tr: "trace sample_world = []" "bucket sample_client = 1"
    by (simp_all add: sample_world_def sample_client_def)
  have rc: "run_chain collect [] (listing ''3'')
        [([invoice ''A''], listing ''3&page=2''), ([], listing ''3&page=3''), ([invoice ''B''], [])] =
        (([], listing ''3&page=3''), [(Some (invoice ''A''), None)], 2)"
    unfolding run_chain_collect
    by (simp add: delivered_def fetched_def page_urls_def elems_def)
  have run: "fetchIter_seq sample_env (Invoice_T sample_um) collect
        (\<lparr>cur_hv = 0, cur_field = ''invoices'', buf = [], url = listing ''3''\<rparr>, [], sample_world) =
        Some (Returns (\<lparr>cur_hv = 0, cur_field = ''invoices'', buf = [], url = listing ''3&page=3''\<rparr>,
                       [(Some (invoice ''A''), None)]),
              sample_world\<lparr>trace :=
                [Wait 1 1, Do (page_request sample_client (listing ''3'')),
                 Wait 1 1, Do (page_request sample_client (listing ''3&page=2''))]\<rparr>)"
    using seq_chain [OF sample_chain_3 sample_clients, where y = collect and cs = "[]"]
    unfolding rc
    by (simp add: page_urls_def fetches_def fetch_events_def tr)
  show ?thesis
    unfolding Invoices_def fetchIter_def start_url
    by (intro conjI sample_chain_3 run)
qed

text \<open>
  Claim C3. When the page fetch of a pull fails, the consumer is handed the pair
  \<open>(nil, err)\<close>. If it answers to go on, the run ends at once with an empty buffer and no
  link, in the world the failed fetch left behind: no further request is made, and a later
  run of the same sequence returns without any request as well.
\<close>

theorem fetch_error_is_terminal:
  assumes "fetchAll e T hv u field w = (Returns (items, next, Some err), w')" and "u \<noteq> []"
    and "y cs (None, Some err) = (go_on, cs')"
  shows "fetchIter_seq e T y (\<lparr>cur_hv = hv, cur_field = field, buf = [], url = u\<rparr>, cs, w) =
           Some (Returns (\<lparr>cur_hv = hv, cur_field = field, buf = [],
                            url = (if go_on then [] else u)\<rparr>, cs'), w')
       \<and> fetchIter_seq e T y (\<lparr>cur_hv = hv, cur_field = field, buf = [], url = []\<rparr>, cs', w') =
           Some (Returns (\<lparr>cur_hv = hv, cur_field = field, buf = [], url = []\<rparr>, cs'), w')"
proof -
  from fetchAll_error_shape [OF assms(1)] have nil: "items = []" "next = []" by simp_all
  have "fetchIter_seq e T y (\<lparr>cur_hv = hv, cur_field = field, buf = [], url = u\<rparr>, cs, w) =
           Some (Returns (\<lparr>cur_hv = hv, cur_field = field, buf = [],
                            url = (if go_on then [] else u)\<rparr>, cs'), w')"
    using assms nil
    by (subst fetchIter_seq.simps) (simp add: refill_def)
  then show ?thesis by (simp add: step_end)
qed

lemma sample_failure:
  "fetchAll sample_env (Invoice_T sample_um) 0 (listing ''4'') ''invoices'' sample_world =
     (Returns ([], [], Some (Failed (''Failed to load '' @ listing ''4'') 500)),
      sample_world\<lparr>trace := [Wait 1 1, Do (page_request sample_client (listing ''4''))]\<rparr>)"
  by (simp add: fetchAll_def NewRequest_def sample_env_def sample_transport_def bucket_Wait_def
      client_Do_def decode_page_def StatusOK_def sample_world_def sample_client_def page_request_def
      auth_headers_def Header_Set_def Let_def)

theorem fetch_error_is_terminal_witness:
  "fetchAll sample_env (Invoice_T sample_um) 0 (listing ''4'') ''invoices'' sample_world =
     (Returns ([], [], Some (Failed (''Failed to load '' @ listing ''4'') 500)),
      sample_world\<lparr>trace := [Wait 1 1, Do (page_request sample_client (listing ''4''))]\<rparr>)
   \<and> listing ''4'' \<noteq> []
   \<and> collect [] (None :: Invoice option, Some (Failed (''Failed to load '' @ listing ''4'') 500)) =
        (True, [(None, Some (Failed (''Failed to load '' @ listing ''4'') 500))])
   \<and> fetchIter_seq sample_env (Invoice_T sample_um) collect
        (Invoices sample_env 0 [WithClientID 4], [], sample_world) =
        Some (Returns (\<lparr>cur_hv = 0, cur_field = ''invoices'', buf = [], url = []\<rparr>,
                       [(None, Some (Failed (''Failed to load '' @ listing ''4'') 500))]),
              sample_world\<lparr>trace := [Wait 1 1, Do (page_request sample_client (listing ''4''))]\<rparr>)"
proof -
  have y: "collect [] (None :: Invoice option, Some (Failed (''Failed to load '' @ listing ''4'') 500)) =
        (True, [(None, Some (Failed (''Failed to load '' @ listing ''4'') 500))])"
    by (simp add: collect_def)
  have run: "fetchIter_seq sample_env (Invoice_T sample_um) collect
        (\<lparr>cur_hv = 0, cur_field = ''invoices'', buf = [], url = listing ''4''\<rparr>, [], sample_world) =
        Some (Returns (\<lparr>cur_hv = 0, cur_field = ''invoices'', buf = [], url = []\<rparr>,
                       [(None, Some (Failed (''Failed to load '' @ listing ''4'') 500))]),
              sample_world\<lparr>trace := [Wait 1 1, Do (page_request sample_client (listing ''4''))]\<rparr>)"
    using fetch_error_is_terminal [where y = collect and cs = "[]", OF sample_failure listing_ne y]
    by simp
  show ?thesis
    unfolding Invoices_def fetchIter_def start_url
    by (intro conjI sample_failure listing_ne y run)
qed

text \<open>
  Claim C6. A consumer that stops at the \<open>m\<close>-th element, on a chain whose pages hold \<open>k\<close>
  elements each (the last one between 1 and \<open>k\<close>), receives the first \<open>m\<close> elements and
  causes the fetches of the first \<open>\<lceil>m / k\<rceil>\<close> pages, \<open>(m + k - 1) div k\<close> of them, and no
  other. While the buffer holds the \<open>m\<close> elements asked for, no request is made at all,
  whatever link the cursor holds.
\<close>

theorem lazy_fetch:
  assumes "chain e T c hv field u ps" and "clients w hv = c"
    and "0 < k" and "\<forall>p \<in> set (butlast ps). length (fst p) = k"
    and "0 < length (fst (last ps))" and "length (fst (last ps)) \<le> k"
    and "0 < m" and "m \<le> length (concat (map fst ps))"
    and "m \<le> length bb"
  shows "(\<exists>b' u'. fetchIter_seq e T (take_first m)
              (\<lparr>cur_hv = hv, cur_field = field, buf = [], url = u\<rparr>, [], w) =
            Some (Returns (\<lparr>cur_hv = hv, cur_field = field, buf = b', url = u'\<rparr>,
                           elems (take m (concat (map fst ps)))),
                  w\<lparr>trace := trace w @ fetches c (take ((m + k - 1) div k) (page_urls u ps))\<rparr>))
       \<and> fetchIter_seq eb T (take_first m)
            (\<lparr>cur_hv = hvb, cur_field = fieldb, buf = bb, url = ub\<rparr>, [], wb) =
            Some (Returns (\<lparr>cur_hv = hvb, cur_field = fieldb, buf = drop m bb, url = ub\<rparr>,
                           elems (take m bb)), wb)"
proof -
  have ne: "ps \<noteq> []" using assms(7,8) by auto
  have nonempty: "\<forall>p \<in> set ps. fst p \<noteq> []"
  proof
    fix p assume "p \<in> set ps"
    moreover have "set ps = set (butlast ps @ [last ps])" using ne by simp
    ultimately have "p \<in> set (butlast ps) \<or> p = last ps" by auto
    then show "fst p \<noteq> []" using assms(3,4,5) by auto
  qed
  let ?ss = "map (\<lambda>p. length (fst p)) ps"
  have sum: "length (concat (map fst ps)) = sum_list ?ss"
    by (simp add: length_concat comp_def)
  have n: "needed m ?ss = (m + k - 1) div k"
  proof (rule needed_uniform [OF assms(3)])
    show "\<forall>s \<in> set (butlast ?ss). s = k" using assms(4) by (auto simp add: map_butlast [symmetric])
    show "?ss \<noteq> []" using ne by simp
    show "0 < last ?ss" using assms(5) ne by (simp add: last_map)
    show "last ?ss \<le> k" using assms(6) ne by (simp add: last_map)
    show "0 < m" by (rule assms(7))
    show "m \<le> sum_list ?ss" using assms(8) sum by simp
  qed
  from run_chain_take_first [where c = "[]" and m = m and ps = ps and u = u] assms(7,8) nonempty
  obtain b' u' where r: "run_chain (take_first m) [] u ps =
      ((b', u'), elems (take m (concat (map fst ps))), needed m ?ss)"
    by auto
  have 1: "fetchIter_seq e T (take_first m)
              (\<lparr>cur_hv = hv, cur_field = field, buf = [], url = u\<rparr>, [], w) =
            Some (Returns (\<lparr>cur_hv = hv, cur_field = field, buf = b', url = u'\<rparr>,
                           elems (take m (concat (map fst ps)))),
                  w\<lparr>trace := trace w @ fetches c (take ((m + k - 1) div k) (page_urls u ps))\<rparr>)"
    using seq_chain [OF assms(1,2), where y = "take_first m" and cs = "[]"] r n by simp
  have 2: "fetchIter_seq eb T (take_first m)
            (\<lparr>cur_hv = hvb, cur_field = fieldb, buf = bb, url = ub\<rparr>, [], wb) =
            Some (Returns (\<lparr>cur_hv = hvb, cur_field = fieldb, buf = drop m bb, url = ub\<rparr>,
                           elems (take m bb)), wb)"
    using assms(7,9) by (simp add: drain feed_take_first)
  from 1 2 show ?thesis by blast
qed


theorem lazy_fetch_witness:
  "chain sample_env (Invoice_T sample_um) sample_client 0 ''invoices'' (listing ''1'')
     [([invoice ''A'', invoice ''B''], listing ''1&page=2''), ([invoice ''C''], [])]
   \<and> clients sample_world 0 = sample_client
   \<and> (\<exists>b' u'. fetchIter_seq sample_env (Invoice_T sample_um) (take_first 2)
          (Invoices sample_env 0 [WithClientID 1], [], sample_world) =
          Some (Returns (\<lparr>cur_hv = 0, cur_field = ''invoices'', buf = b', url = u'\<rparr>,
                         [(Some (invoice ''A''), None), (Some (invoice ''B''), None)]),
                sample_world\<lparr>trace :=
                  [Wait 1 1, Do (page_request sample_client (listing ''1''))]\<rparr>))
   \<and> fetchIter_seq sample_env (Invoice_T sample_um) (take_first 2)
         (\<lparr>cur_hv = 0, cur_field = ''invoices'',
           buf = [invoice ''A'', invoice ''B'', invoice ''C''], url = listing ''1&page=2''\<rparr>,
          [], sample_world) =
         Some (Returns (\<lparr>cur_hv = 0, cur_field = ''invoices'', buf = [invoice ''C''],
                          url = listing ''1&page=2''\<rparr>,
                        [(Some (invoice ''A''), None), (Some (invoice ''B''), None)]),
               sample_world)"
proof -
  have tr: "trace sample_world = []" "bucket sample_client = 1"
    by (simp_all add: sample_world_def sample_client_def)
  have two: "(2 + 2 - 1) div 2 = (1::nat)" by simp
  note inst = lazy_fetch [OF sample_chain_1 sample_clients,
      where k = 2 and m = 2 and bb = "[invoice ''A'', invoice ''B'', invoice ''C'']"
        and eb = sample_env and hvb = 0 and fieldb = "''invoices''" and ub = "listing ''1&page=2''"
        and wb = sample_world]
  have both: "(\<exists>b' u'. fetchIter_seq sample_env (Invoice_T sample_um) (take_first 2)
          (\<lparr>cur_hv = 0, cur_field = ''invoices'', buf = [], url = listing ''1''\<rparr>, [], sample_world) =
          Some (Returns (\<lparr>cur_hv = 0, cur_field = ''invoices'', buf = b', url = u'\<rparr>,
                         [(Some (invoice ''A''), None), (Some (invoice ''B''), None)]),
                sample_world\<lparr>trace :=
                  [Wait 1 1, Do (page_request sample_client (listing ''1''))]\<rparr>))
   \<and> fetchIter_seq sample_env (Invoice_T sample_um) (take_first 2)
         (\<lparr>cur_hv = 0, cur_field = ''invoices'',
           buf = [invoice ''A'', invoice ''B'', invoice ''C''], url = listing ''1&page=2''\<rparr>,
          [], sample_world) =
         Some (Returns (\<lparr>cur_hv = 0, cur_field = ''invoices'', buf = [invoice ''C''],
                          url = listing ''1&page=2''\<rparr>,
                        [(Some (invoice ''A''), None), (Some (invoice ''B''), None)]),
               sample_world)"
    using inst
    by (simp add: two page_urls_def elems_def fetches_def fetch_events_def tr)
  show ?thesis
    unfolding Invoices_def fetchIter_def start_url
    using sample_chain_1 sample_clients both by blast
qed

section \<open>Claims about the page fetcher\<close>

lemma final_Next_snoc:
  "final_Next (vs @ [v]) = (case v of JStr s \<Rightarrow> s | _ \<Rightarrow> final_Next vs)"
  by (cases v) (simp_all add: final_Next_def)

lemma next_strings_snoc:
  "next_strings (l @ [kv]) =
     next_strings l @ (case snd kv of
                         JStr s \<Rightarrow> (if key_matches ''next'' (fst kv) then [s] else [])
                       | _ \<Rightarrow> [])"
  by (simp add: next_strings_def)

lemma final_Next_links_next: "final_Next (next_values l) = links_next (JObj l)"
proof (induction l rule: rev_induct)
  case Nil
  show ?case by (simp add: final_Next_def next_values_def links_next_def next_strings_def)
next
  case (snoc kv l)
  have IH: "final_Next (next_values l) = (if next_strings l = [] then [] else last (next_strings l))"
    using snoc.IH by (simp add: links_next_def)
  show ?case
  proof (cases "key_matches ''next'' (fst kv)")
    case True
    then have nv: "next_values (l @ [kv]) = next_values l @ [snd kv]"
      by (simp add: next_values_def)
    show ?thesis
      using IH True
      unfolding nv final_Next_snoc links_next_def json.case next_strings_snoc
      by (cases "snd kv") simp_all
  next
    case False
    then have nv: "next_values (l @ [kv]) = next_values l" by (simp add: next_values_def)
    show ?thesis
      using IH False
      unfolding nv links_next_def json.case next_strings_snoc
      by (cases "snd kv") simp_all
  qed
qed

lemma fetchAll_after_Do:
  assumes "parse_url_ok e u"
    and "transport e (trace w @ [Wait (bucket (clients w hv)) 1]) (page_request (clients w hv) u) = Inr resp"
  shows "fetchAll e T hv u field w =
           (decode_page e T hv u field resp,
            w\<lparr>trace := trace w @ fetch_events (clients w hv) u\<rparr>)"
  using assms
  by (simp add: fetchAll_def NewRequest_def bucket_Wait_def client_Do_def page_request_def
      fetch_events_def Let_def)

lemma decode_page_status:
  "StatusCode resp \<noteq> StatusOK \<Longrightarrow>
   decode_page e T hv u field resp =
     Returns ([], [], Some (Failed (''Failed to load '' @ u) (StatusCode resp)))"
  by (simp add: decode_page_def)

lemma decode_page_malformed:
  "StatusCode resp = StatusOK \<Longrightarrow> parse_json e (Body resp) = None \<Longrightarrow>
   decode_page e T hv u field resp = Returns ([], [], Some SyntaxError)"
  by (simp add: decode_page_def Decode_map_def)

lemma decode_page_not_object:
  "StatusCode resp = StatusOK \<Longrightarrow> parse_json e (Body resp) = Some j \<Longrightarrow> \<forall>kvs. j \<noteq> JObj kvs \<Longrightarrow>
   \<exists>err. (err = SyntaxError \<or> err = UnmarshalTypeError) \<and>
     decode_page e T hv u field resp = Returns ([], [], Some err)"
  by (cases j) (simp_all add: decode_page_def Decode_map_def Unmarshal_links_def)

lemma map_of_rev_absent: "k \<notin> fst ` set kvs \<Longrightarrow> map_of (rev kvs) k = None"
  by (simp add: map_of_eq_None_iff)

lemma Unmarshal_links_errors:
  "Unmarshal_links raw = Inl err \<Longrightarrow> err = SyntaxError \<or> err = UnmarshalTypeError"
  by (auto simp add: Unmarshal_links_def split: option.splits json.splits if_splits)

lemma decode_page_missing_field:
  assumes "StatusCode resp = StatusOK" and "parse_json e (Body resp) = Some (JObj kvs)"
    and "field \<notin> fst ` set kvs"
  shows "\<exists>err. (err = SyntaxError \<or> err = UnmarshalTypeError) \<and>
     decode_page e T hv u field resp = Returns ([], [], Some err)"
proof (cases "Unmarshal_links (map_of (rev kvs) ''links'')")
  case (Inl err)
  then show ?thesis
    using assms Unmarshal_links_errors [OF Inl]
    by (simp add: decode_page_def Decode_map_def)
next
  case (Inr nxt)
  then show ?thesis
    using assms
    by (simp add: decode_page_def Decode_map_def map_of_rev_absent Unmarshal_results_def)
qed

lemma decode_page_success:
  assumes "decode_page e T hv u field resp = Returns (items, next, None)"
  shows "StatusCode resp = StatusOK \<and>
     (\<exists>kvs lk. parse_json e (Body resp) = Some (JObj kvs) \<and>
        map_of (rev kvs) ''links'' = Some lk \<and> next = links_next lk)"
proof -
  have st: "StatusCode resp = StatusOK"
    using assms by (simp add: decode_page_def split: if_splits)
  from assms st obtain m where m: "Decode_map e (Body resp) = Inr m"
    and ln: "Unmarshal_links (m ''links'') = Inr next"
    by (auto simp add: decode_page_def split: sum.splits if_splits)
  from ln obtain lk where lk: "m ''links'' = Some lk"
    by (cases "m ''links''") (simp_all add: Unmarshal_links_def)
  from m lk obtain kvs where kvs: "parse_json e (Body resp) = Some (JObj kvs)" "m = map_of (rev kvs)"
    by (auto simp add: Decode_map_def split: option.splits json.splits)
  have "next = links_next lk"
    using ln lk
    by (cases lk) (auto simp add: Unmarshal_links_def final_Next_links_next links_next_def
        split: if_splits)
  with st kvs lk show ?thesis by auto
qed

lemma decode_page_no_links:
  assumes "StatusCode resp = StatusOK" and "parse_json e (Body resp) = Some (JObj kvs)"
    and "''links'' \<notin> fst ` set kvs"
  shows "decode_page e T hv u field resp = Returns ([], [], Some SyntaxError)"
  using assms
  by (simp add: decode_page_def Decode_map_def map_of_rev_absent Unmarshal_links_def)

lemma Unmarshal_results_array:
  assumes "list_all (\<lambda>j. j \<noteq> JNull \<and> unmarshal T j \<noteq> None) js"
  shows "Unmarshal_results T (Some (JArr js)) = Inr (map (\<lambda>j. Some (the (unmarshal T j))) js)"
proof -
  have e: "\<And>j. j \<in> set js \<Longrightarrow> Unmarshal_elem T j = Some (Some (the (unmarshal T j)))"
    using assms by (auto simp add: list_all_iff Unmarshal_elem_def split: json.splits)
  then have "list_all (\<lambda>j. Unmarshal_elem T j \<noteq> None) js" by (simp add: list_all_iff)
  moreover have "map (\<lambda>j. the (Unmarshal_elem T j)) js = map (\<lambda>j. Some (the (unmarshal T j))) js"
    using e by simp
  ultimately show ?thesis by (simp add: Unmarshal_results_def)
qed

lemma Unmarshal_links_ok:
  assumes "lk = JNull \<or> (\<exists>l. lk = JObj l \<and> list_all is_string_or_null (next_values l))"
  shows "Unmarshal_links (Some lk) = Inr (links_next lk)"
  using assms
  by (auto simp add: Unmarshal_links_def final_Next_links_next links_next_def)

lemma decode_page_ok:
  assumes "StatusCode resp = StatusOK" and "parse_json e (Body resp) = Some (JObj kvs)"
    and "map_of (rev kvs) ''links'' = Some lk"
    and "lk = JNull \<or> (\<exists>l. lk = JObj l \<and> list_all is_string_or_null (next_values l))"
    and "map_of (rev kvs) field = Some (JArr js)"
    and "list_all (\<lambda>j. j \<noteq> JNull \<and> unmarshal T j \<noteq> None) js"
  shows "decode_page e T hv u field resp =
           Returns (map (\<lambda>j. set_Hv T hv (the (unmarshal T j))) js, links_next lk, None)"
proof -
  have nn: "None \<notin> set (map (\<lambda>j. Some (the (unmarshal T j))) js)" by auto
  show ?thesis
    using assms(1,2,3,5) nn
    by (simp add: decode_page_def Decode_map_def Unmarshal_links_ok [OF assms(4)]
        Unmarshal_results_array [OF assms(6)] comp_def del: set_map)
qed

lemma links_shapes:
  "list_all is_string_or_null (next_values [(''next'', JStr s)])"
  "list_all is_string_or_null (next_values [(''next'', JNull)])"
  "list_all is_string_or_null (next_values [])"
  "links_next (JObj [(''next'', JStr s)]) = s"
  "links_next (JObj [(''next'', JNull)]) = []"
  "links_next (JObj []) = []"
  "links_next JNull = []"
  by (simp_all add: next_values_def key_next is_string_or_null_def links_next_def next_strings_def)

lemma next_strings_no_key:
  "\<forall>kv \<in> set l. \<not> key_matches ''next'' (fst kv) \<Longrightarrow> next_strings l = []"
proof (induction l)
  case Nil
  show ?case by (simp add: next_strings_def)
next
  case (Cons kv l)
  then have "next_strings l = []" by simp
  moreover have "next_strings (kv # l) =
      (case snd kv of JStr s \<Rightarrow> (if key_matches ''next'' (fst kv) then [s] else []) | _ \<Rightarrow> [])
        @ next_strings l"
    by (simp add: next_strings_def)
  ultimately show ?case using Cons.prems by (cases "snd kv") simp_all
qed

lemma links_next_no_key:
  "\<forall>kv \<in> set l. \<not> key_matches ''next'' (fst kv) \<Longrightarrow> links_next (JObj l) = []"
  by (simp add: links_next_def next_strings_no_key)

text \<open>
  Claim C7, as amended. Once \<open>hv.client.Do\<close> has returned a response to the page request:
  a status other than 200 gives an error that carries the URL and that status, with no
  elements and no next link; a body that is not JSON, that is not a JSON object, whose
  object lacks the named element field, or whose object lacks the \<open>links\<close> entry gives a
  decode error, again with no elements and no link. When the status is 200 and the body
  is an object whose element field holds an array of decodable elements and whose
  \<open>links\<close> entry is \<open>null\<close> or an object in which \<open>next\<close> is a string, \<open>null\<close> or absent,
  the call succeeds: it returns those elements in the order of the array, and the next
  link is the string under \<open>links.next\<close>, which is empty when that key is absent or
  \<open>null\<close> (an empty link is what the sequence takes for "no page left"). Every success is
  of this kind: the body is an object with a \<open>links\<close> entry and the link returned is the
  string under \<open>links.next\<close>.
\<close>

theorem fetchAll_outcomes:
  assumes "parse_url_ok e u"
    and "transport e (trace w @ [Wait (bucket (clients w hv)) 1]) (page_request (clients w hv) u) = Inr resp"
  shows "(StatusCode resp \<noteq> StatusOK \<longrightarrow>
            fst (fetchAll e T hv u field w) =
              Returns ([], [], Some (Failed (''Failed to load '' @ u) (StatusCode resp))))
       \<and> (StatusCode resp = StatusOK \<longrightarrow> parse_json e (Body resp) = None \<longrightarrow>
            fst (fetchAll e T hv u field w) = Returns ([], [], Some SyntaxError))
       \<and> (StatusCode resp = StatusOK \<longrightarrow> parse_json e (Body resp) = Some j \<longrightarrow>
            ((\<forall>kvs. j \<noteq> JObj kvs) \<or> (\<exists>kvs. j = JObj kvs \<and> field \<notin> fst ` set kvs)) \<longrightarrow>
            (\<exists>err. (err = SyntaxError \<or> err = UnmarshalTypeError) \<and>
               fst (fetchAll e T hv u field w) = Returns ([], [], Some err)))
       \<and> (StatusCode resp = StatusOK \<longrightarrow> parse_json e (Body resp) = Some (JObj kvs) \<longrightarrow>
            ''links'' \<notin> fst ` set kvs \<longrightarrow>
            fst (fetchAll e T hv u field w) = Returns ([], [], Some SyntaxError))
       \<and> (StatusCode resp = StatusOK \<longrightarrow> parse_json e (Body resp) = Some (JObj kvs) \<longrightarrow>
            map_of (rev kvs) field = Some (JArr js) \<longrightarrow>
            list_all (\<lambda>j. j \<noteq> JNull \<and> unmarshal T j \<noteq> None) js \<longrightarrow>
            (map_of (rev kvs) ''links'' = Some (JObj [(''next'', JStr s)]) \<longrightarrow>
               fst (fetchAll e T hv u field w) =
                 Returns (map (\<lambda>j. set_Hv T hv (the (unmarshal T j))) js, s, None))
            \<and> (map_of (rev kvs) ''links'' = Some (JObj [(''next'', JNull)])
                 \<or> map_of (rev kvs) ''links'' = Some (JObj [])
                 \<or> map_of (rev kvs) ''links'' = Some JNull \<longrightarrow>
               fst (fetchAll e T hv u field w) =
                 Returns (map (\<lambda>j. set_Hv T hv (the (unmarshal T j))) js, [], None))
            \<and> (map_of (rev kvs) ''links'' = Some lk \<longrightarrow>
               lk = JNull \<or> (\<exists>l. lk = JObj l \<and> list_all is_string_or_null (next_values l)) \<longrightarrow>
               fst (fetchAll e T hv u field w) =
                 Returns (map (\<lambda>j. set_Hv T hv (the (unmarshal T j))) js, links_next lk, None)))
       \<and> (fst (fetchAll e T hv u field w) = Returns (items, next, None) \<longrightarrow>
            StatusCode resp = StatusOK \<and>
            (\<exists>kvs lk. parse_json e (Body resp) = Some (JObj kvs) \<and>
               map_of (rev kvs) ''links'' = Some lk \<and> next = links_next lk))
       \<and> links_next (JObj [(''next'', JStr s)]) = s
       \<and> links_next (JObj [(''next'', JNull)]) = []
       \<and> links_next (JObj []) = []
       \<and> links_next JNull = []
       \<and> ((\<forall>kv \<in> set l. \<not> key_matches ''next'' (fst kv)) \<longrightarrow> links_next (JObj l) = [])"
proof -
  have a: "StatusCode resp \<noteq> StatusOK \<longrightarrow>
            fst (fetchAll e T hv u field w) =
              Returns ([], [], Some (Failed (''Failed to load '' @ u) (StatusCode resp)))"
    unfolding fetchAll_after_Do [OF assms] fst_conv
    using decode_page_status [of resp e T hv u field] by blast
  have b: "StatusCode resp = StatusOK \<longrightarrow> parse_json e (Body resp) = None \<longrightarrow>
            fst (fetchAll e T hv u field w) = Returns ([], [], Some SyntaxError)"
    unfolding fetchAll_after_Do [OF assms] fst_conv
    using decode_page_malformed [of resp e T hv u field] by blast
  have c: "StatusCode resp = StatusOK \<longrightarrow> parse_json e (Body resp) = Some j \<longrightarrow>
            ((\<forall>kvs. j \<noteq> JObj kvs) \<or> (\<exists>kvs. j = JObj kvs \<and> field \<notin> fst ` set kvs)) \<longrightarrow>
            (\<exists>err. (err = SyntaxError \<or> err = UnmarshalTypeError) \<and>
               fst (fetchAll e T hv u field w) = Returns ([], [], Some err))"
    unfolding fetchAll_after_Do [OF assms] fst_conv
    using decode_page_not_object [of resp e j T hv u field]
      decode_page_missing_field [of resp e _ field T hv u]
    by blast
  have c2: "StatusCode resp = StatusOK \<longrightarrow> parse_json e (Body resp) = Some (JObj kvs) \<longrightarrow>
            ''links'' \<notin> fst ` set kvs \<longrightarrow>
            fst (fetchAll e T hv u field w) = Returns ([], [], Some SyntaxError)"
    unfolding fetchAll_after_Do [OF assms] fst_conv
    using decode_page_no_links [of resp e kvs T hv u field] by blast
  have ok: "decode_page e T hv u field resp =
        Returns (map (\<lambda>j. set_Hv T hv (the (unmarshal T j))) js, links_next lk', None)"
    if "StatusCode resp = StatusOK" "parse_json e (Body resp) = Some (JObj kvs)"
      "map_of (rev kvs) field = Some (JArr js)"
      "list_all (\<lambda>j. j \<noteq> JNull \<and> unmarshal T j \<noteq> None) js"
      "map_of (rev kvs) ''links'' = Some lk'"
      "lk' = JNull \<or> (\<exists>l. lk' = JObj l \<and> list_all is_string_or_null (next_values l))"
    for lk'
    using that by (intro decode_page_ok) simp_all
  have d: "StatusCode resp = StatusOK \<longrightarrow> parse_json e (Body resp) = Some (JObj kvs) \<longrightarrow>
            map_of (rev kvs) field = Some (JArr js) \<longrightarrow>
            list_all (\<lambda>j. j \<noteq> JNull \<and> unmarshal T j \<noteq> None) js \<longrightarrow>
            (map_of (rev kvs) ''links'' = Some (JObj [(''next'', JStr s)]) \<longrightarrow>
               fst (fetchAll e T hv u field w) =
                 Returns (map (\<lambda>j. set_Hv T hv (the (unmarshal T j))) js, s, None))
            \<and> (map_of (rev kvs) ''links'' = Some (JObj [(''next'', JNull)])
                 \<or> map_of (rev kvs) ''links'' = Some (JObj [])
                 \<or> map_of (rev kvs) ''links'' = Some JNull \<longrightarrow>
               fst (fetchAll e T hv u field w) =
                 Returns (map (\<lambda>j. set_Hv T hv (the (unmarshal T j))) js, [], None))
            \<and> (map_of (rev kvs) ''links'' = Some lk \<longrightarrow>
               lk = JNull \<or> (\<exists>l. lk = JObj l \<and> list_all is_string_or_null (next_values l)) \<longrightarrow>
               fst (fetchAll e T hv u field w) =
                 Returns (map (\<lambda>j. set_Hv T hv (the (unmarshal T j))) js, links_next lk, None))"
    unfolding fetchAll_after_Do [OF assms] fst_conv
  proof (intro impI conjI)
    assume h: "StatusCode resp = StatusOK" "parse_json e (Body resp) = Some (JObj kvs)"
      "map_of (rev kvs) field = Some (JArr js)"
      "list_all (\<lambda>j. j \<noteq> JNull \<and> unmarshal T j \<noteq> None) js"
    assume lk1: "map_of (rev kvs) ''links'' = Some (JObj [(''next'', JStr s)])"
    have "JObj [(''next'', JStr s)] = JNull \<or>
        (\<exists>l. JObj [(''next'', JStr s)] = JObj l \<and> list_all is_string_or_null (next_values l))"
      using links_shapes(1) by blast
    from ok [OF h lk1 this]
    show "decode_page e T hv u field resp =
        Returns (map (\<lambda>j. set_Hv T hv (the (unmarshal T j))) js, s, None)"
      by (simp only: links_shapes(4))
  next
    assume h: "StatusCode resp = StatusOK" "parse_json e (Body resp) = Some (JObj kvs)"
      "map_of (rev kvs) field = Some (JArr js)"
      "list_all (\<lambda>j. j \<noteq> JNull \<and> unmarshal T j \<noteq> None) js"
    assume "map_of (rev kvs) ''links'' = Some (JObj [(''next'', JNull)])
        \<or> map_of (rev kvs) ''links'' = Some (JObj [])
        \<or> map_of (rev kvs) ''links'' = Some JNull"
    then consider
        (null) "map_of (rev kvs) ''links'' = Some (JObj [(''next'', JNull)])"
      | (absent) "map_of (rev kvs) ''links'' = Some (JObj [])"
      | (nolinks) "map_of (rev kvs) ''links'' = Some JNull"
      by blast
    then show "decode_page e T hv u field resp =
        Returns (map (\<lambda>j. set_Hv T hv (the (unmarshal T j))) js, [], None)"
    proof cases
      case null
      have "JObj [(''next'', JNull)] = JNull \<or>
          (\<exists>l. JObj [(''next'', JNull)] = JObj l \<and> list_all is_string_or_null (next_values l))"
        using links_shapes(2) by blast
      from ok [OF h null this] show ?thesis by (simp only: links_shapes(5))
    next
      case absent
      have "JObj [] = JNull \<or>
          (\<exists>l. JObj [] = JObj l \<and> list_all is_string_or_null (next_values l))"
        using links_shapes(3) by blast
      from ok [OF h absent this] show ?thesis by (simp only: links_shapes(6))
    next
      case nolinks
      have "JNull = JNull \<or> (\<exists>l. JNull = JObj l \<and> list_all is_string_or_null (next_values l))"
        by simp
      from ok [OF h nolinks this] show ?thesis by (simp only: links_shapes(7))
    qed
  next
    assume h: "StatusCode resp = StatusOK" "parse_json e (Body resp) = Some (JObj kvs)"
      "map_of (rev kvs) field = Some (JArr js)"
      "list_all (\<lambda>j. j \<noteq> JNull \<and> unmarshal T j \<noteq> None) js"
    assume "map_of (rev kvs) ''links'' = Some lk"
      and "lk = JNull \<or> (\<exists>l. lk = JObj l \<and> list_all is_string_or_null (next_values l))"
    from ok [OF h this]
    show "decode_page e T hv u field resp =
        Returns (map (\<lambda>j. set_Hv T hv (the (unmarshal T j))) js, links_next lk, None)" .
  qed
  have f: "fst (fetchAll e T hv u field w) = Returns (items, next, None) \<longrightarrow>
            StatusCode resp = StatusOK \<and>
            (\<exists>kvs lk. parse_json e (Body resp) = Some (JObj kvs) \<and>
               map_of (rev kvs) ''links'' = Some lk \<and> next = links_next lk)"
    unfolding fetchAll_after_Do [OF assms] fst_conv
    using decode_page_success [of e T hv u field resp items "next"] by blast
  have nk: "(\<forall>kv \<in> set l. \<not> key_matches ''next'' (fst kv)) \<longrightarrow> links_next (JObj l) = []"
    using links_next_no_key [of l] by blast
  show ?thesis by (intro conjI a b c c2 d f links_shapes(4-7) nk)
qed

lemma sample_parse_url: "parse_url_ok sample_env u"
  by (simp add: sample_env_def)

lemma sample_transport_4:
  "transport sample_env (trace sample_world @ [Wait (bucket (clients sample_world 0)) 1])
     (page_request (clients sample_world 0) (listing ''4'')) = Inr \<lparr>StatusCode = 500, Body = []\<rparr>"
  by (simp add: sample_env_def sample_transport_def page_request_def auth_headers_def Header_Set_def)

lemma sample_transport_ok:
  "q \<noteq> ''4'' \<Longrightarrow>
   transport sample_env (trace sample_world @ [Wait (bucket (clients sample_world 0)) 1])
     (page_request (clients sample_world 0) (listing q)) =
     Inr \<lparr>StatusCode = 200, Body = listing q\<rparr>"
  by (simp add: sample_env_def sample_transport_def page_request_def auth_headers_def Header_Set_def
      listing_inj)

lemma sample_parse:
  "parse_json sample_env (listing ''1'') =
     Some (JObj [(''invoices'', JArr [inv ''A'', inv ''B'']),
                 (''links'', JObj [(''next'', JStr (listing ''1&page=2''))])])"
  "parse_json sample_env (listing ''1&page=2'') =
     Some (JObj [(''invoices'', JArr [inv ''C'']), (''links'', JObj [(''next'', JNull)])])"
  "parse_json sample_env (listing ''5'') = Some (JObj [(''invoices'', JArr [inv ''A''])])"
  by (simp_all add: sample_env_def sample_site_def page_json_def listing_inj)

lemma sample_decodable:
  "list_all (\<lambda>j. j \<noteq> JNull \<and> unmarshal (Invoice_T sample_um) j \<noteq> None) [inv ''A'', inv ''B'']"
  "list_all (\<lambda>j. j \<noteq> JNull \<and> unmarshal (Invoice_T sample_um) j \<noteq> None) [inv ''C'']"
  "map (\<lambda>j. set_Hv (Invoice_T sample_um) 0 (the (unmarshal (Invoice_T sample_um) j)))
     [inv ''A'', inv ''B''] = [invoice ''A'', invoice ''B'']"
  "map (\<lambda>j. set_Hv (Invoice_T sample_um) 0 (the (unmarshal (Invoice_T sample_um) j)))
     [inv ''C''] = [invoice ''C'']"
  by (simp_all add: Invoice_T_def sample_um_def inv_def invoice_def)

theorem fetchAll_outcomes_witness:
  "parse_url_ok sample_env (listing ''4'')
   \<and> transport sample_env (trace sample_world @ [Wait (bucket (clients sample_world 0)) 1])
        (page_request (clients sample_world 0) (listing ''4'')) = Inr \<lparr>StatusCode = 500, Body = []\<rparr>
   \<and> fst (fetchAll sample_env (Invoice_T sample_um) 0 (listing ''4'') ''invoices'' sample_world) =
        Returns ([], [], Some (Failed (''Failed to load '' @ listing ''4'') 500))
   \<and> transport sample_env (trace sample_world @ [Wait (bucket (clients sample_world 0)) 1])
        (page_request (clients sample_world 0) (listing ''1'')) =
        Inr \<lparr>StatusCode = 200, Body = listing ''1''\<rparr>
   \<and> fst (fetchAll sample_env (Invoice_T sample_um) 0 (listing ''1'') ''invoices'' sample_world) =
        Returns ([invoice ''A'', invoice ''B''], listing ''1&page=2'', None)
   \<and> (\<exists>err. (err = SyntaxError \<or> err = UnmarshalTypeError) \<and>
         fst (fetchAll sample_env (Invoice_T sample_um) 0 (listing ''1'') ''customers'' sample_world) =
           Returns ([], [], Some err))
   \<and> transport sample_env (trace sample_world @ [Wait (bucket (clients sample_world 0)) 1])
        (page_request (clients sample_world 0) (listing ''1&page=2'')) =
        Inr \<lparr>StatusCode = 200, Body = listing ''1&page=2''\<rparr>
   \<and> fst (fetchAll sample_env (Invoice_T sample_um) 0 (listing ''1&page=2'') ''invoices'' sample_world) =
        Returns ([invoice ''C''], [], None)
   \<and> transport sample_env (trace sample_world @ [Wait (bucket (clients sample_world 0)) 1])
        (page_request (clients sample_world 0) (listing ''9'')) =
        Inr \<lparr>StatusCode = 200, Body = listing ''9''\<rparr>
   \<and> parse_json sample_env (listing ''9'') = None
   \<and> fst (fetchAll sample_env (Invoice_T sample_um) 0 (listing ''9'') ''invoices'' sample_world) =
        Returns ([], [], Some SyntaxError)
   \<and> transport sample_env (trace sample_world @ [Wait (bucket (clients sample_world 0)) 1])
        (page_request (clients sample_world 0) (listing ''5'')) =
        Inr \<lparr>StatusCode = 200, Body = listing ''5''\<rparr>
   \<and> ''links'' \<notin> fst ` set [(''invoices'', JArr [inv ''A''])]
   \<and> fst (fetchAll sample_env (Invoice_T sample_um) 0 (listing ''5'') ''invoices'' sample_world) =
        Returns ([], [], Some SyntaxError)
   \<and> (\<exists>kvs lk. parse_json sample_env (listing ''1'') = Some (JObj kvs) \<and>
         map_of (rev kvs) ''links'' = Some lk \<and> listing ''1&page=2'' = links_next lk)"
proof -
  have t1: "transport sample_env (trace sample_world @ [Wait (bucket (clients sample_world 0)) 1])
        (page_request (clients sample_world 0) (listing ''1'')) =
        Inr \<lparr>StatusCode = 200, Body = listing ''1''\<rparr>"
    by (rule sample_transport_ok) simp
  have t2: "transport sample_env (trace sample_world @ [Wait (bucket (clients sample_world 0)) 1])
        (page_request (clients sample_world 0) (listing ''1&page=2'')) =
        Inr \<lparr>StatusCode = 200, Body = listing ''1&page=2''\<rparr>"
    by (rule sample_transport_ok) simp
  have st4: "StatusCode \<lparr>StatusCode = 500, Body = []\<rparr> \<noteq> StatusOK"
    and st: "\<And>b. StatusCode \<lparr>StatusCode = 200, Body = b\<rparr> = StatusOK"
    by (simp_all add: StatusOK_def)
  have a: "fst (fetchAll sample_env (Invoice_T sample_um) 0 (listing ''4'') ''invoices'' sample_world) =
        Returns ([], [], Some (Failed (''Failed to load '' @ listing ''4'') 500))"
    using fetchAll_outcomes [OF sample_parse_url sample_transport_4,
        where T = "Invoice_T sample_um" and field = "''invoices''", THEN conjunct1] st4
    by simp
  have p1: "parse_json sample_env (Body \<lparr>StatusCode = 200, Body = listing ''1''\<rparr>) =
      Some (JObj [(''invoices'', JArr [inv ''A'', inv ''B'']),
                  (''links'', JObj [(''next'', JStr (listing ''1&page=2''))])])"
    by (simp add: sample_parse)
  have p2: "parse_json sample_env (Body \<lparr>StatusCode = 200, Body = listing ''1&page=2''\<rparr>) =
      Some (JObj [(''invoices'', JArr [inv ''C'']), (''links'', JObj [(''next'', JNull)])])"
    by (simp add: sample_parse)
  have m1: "map_of (rev [(''invoices'', JArr [inv ''A'', inv ''B'']),
                  (''links'', JObj [(''next'', JStr (listing ''1&page=2''))])]) ''invoices'' =
        Some (JArr [inv ''A'', inv ''B''])"
    "map_of (rev [(''invoices'', JArr [inv ''A'', inv ''B'']),
                  (''links'', JObj [(''next'', JStr (listing ''1&page=2''))])]) ''links'' =
        Some (JObj [(''next'', JStr (listing ''1&page=2''))])"
    "''customers'' \<notin> fst ` set [(''invoices'', JArr [inv ''A'', inv ''B'']),
                  (''links'', JObj [(''next'', JStr (listing ''1&page=2''))])]"
    by simp_all
  have m2: "map_of (rev [(''invoices'', JArr [inv ''C'']), (''links'', JObj [(''next'', JNull)])])
        ''invoices'' = Some (JArr [inv ''C''])"
    "map_of (rev [(''invoices'', JArr [inv ''C'']), (''links'', JObj [(''next'', JNull)])])
        ''links'' = Some (JObj [(''next'', JNull)])"
    by simp_all
  have b: "fst (fetchAll sample_env (Invoice_T sample_um) 0 (listing ''1'') ''invoices'' sample_world) =
        Returns ([invoice ''A'', invoice ''B''], listing ''1&page=2'', None)"
    using fetchAll_outcomes [OF sample_parse_url t1,
        where T = "Invoice_T sample_um" and field = "''invoices''"
          and kvs = "[(''invoices'', JArr [inv ''A'', inv ''B'']),
                  (''links'', JObj [(''next'', JStr (listing ''1&page=2''))])]"
          and js = "[inv ''A'', inv ''B'']" and s = "listing ''1&page=2''",
        THEN conjunct2, THEN conjunct2, THEN conjunct2, THEN conjunct2, THEN conjunct1,
        rule_format, OF st p1 m1(1) sample_decodable(1), THEN conjunct1, rule_format, OF m1(2)]
    by (simp only: sample_decodable(3))
  have c: "\<exists>err. (err = SyntaxError \<or> err = UnmarshalTypeError) \<and>
         fst (fetchAll sample_env (Invoice_T sample_um) 0 (listing ''1'') ''customers'' sample_world) =
           Returns ([], [], Some err)"
    using fetchAll_outcomes [OF sample_parse_url t1,
        where T = "Invoice_T sample_um" and field = "''customers''"
          and j = "JObj [(''invoices'', JArr [inv ''A'', inv ''B'']),
                  (''links'', JObj [(''next'', JStr (listing ''1&page=2''))])]",
        THEN conjunct2, THEN conjunct2, THEN conjunct1, rule_format, OF st p1] m1(3)
    by blast
  have d: "fst (fetchAll sample_env (Invoice_T sample_um) 0 (listing ''1&page=2'') ''invoices'' sample_world) =
        Returns ([invoice ''C''], [], None)"
    using fetchAll_outcomes [OF sample_parse_url t2,
        where T = "Invoice_T sample_um" and field = "''invoices''"
          and kvs = "[(''invoices'', JArr [inv ''C'']), (''links'', JObj [(''next'', JNull)])]"
          and js = "[inv ''C'']",
        THEN conjunct2, THEN conjunct2, THEN conjunct2, THEN conjunct2, THEN conjunct1,
        rule_format, OF st p2 m2(1) sample_decodable(2), THEN conjunct2, THEN conjunct1,
        rule_format, OF disjI1, OF m2(2)]
    by (simp only: sample_decodable(4))
  have t9: "transport sample_env (trace sample_world @ [Wait (bucket (clients sample_world 0)) 1])
        (page_request (clients sample_world 0) (listing ''9'')) =
        Inr \<lparr>StatusCode = 200, Body = listing ''9''\<rparr>"
    by (rule sample_transport_ok) simp
  have n9: "parse_json sample_env (listing ''9'') = None"
    by (simp add: sample_env_def sample_site_def listing_def)
  have p9: "parse_json sample_env (Body \<lparr>StatusCode = 200, Body = listing ''9''\<rparr>) = None"
    by (simp add: n9)
  have g: "fst (fetchAll sample_env (Invoice_T sample_um) 0 (listing ''9'') ''invoices'' sample_world) =
        Returns ([], [], Some SyntaxError)"
    by (rule fetchAll_outcomes [OF sample_parse_url t9,
        where T = "Invoice_T sample_um" and field = "''invoices''",
        THEN conjunct2, THEN conjunct1, rule_format, OF st p9])
  have t5: "transport sample_env (trace sample_world @ [Wait (bucket (clients sample_world 0)) 1])
        (page_request (clients sample_world 0) (listing ''5'')) =
        Inr \<lparr>StatusCode = 200, Body = listing ''5''\<rparr>"
    by (rule sample_transport_ok) simp
  have p5: "parse_json sample_env (Body \<lparr>StatusCode = 200, Body = listing ''5''\<rparr>) =
      Some (JObj [(''invoices'', JArr [inv ''A''])])"
    by (simp add: sample_parse)
  have m5: "''links'' \<notin> fst ` set [(''invoices'', JArr [inv ''A''])]"
    by simp
  have h: "fst (fetchAll sample_env (Invoice_T sample_um) 0 (listing ''5'') ''invoices'' sample_world) =
        Returns ([], [], Some SyntaxError)"
    by (rule fetchAll_outcomes [OF sample_parse_url t5,
        where T = "Invoice_T sample_um" and field = "''invoices''"
          and kvs = "[(''invoices'', JArr [inv ''A''])]",
        THEN conjunct2, THEN conjunct2, THEN conjunct2, THEN conjunct1, rule_format, OF st p5 m5])
  have k0: "StatusCode \<lparr>StatusCode = 200, Body = listing ''1''\<rparr> = StatusOK \<and>
      (\<exists>kvs lk. parse_json sample_env (Body \<lparr>StatusCode = 200, Body = listing ''1''\<rparr>) = Some (JObj kvs) \<and>
         map_of (rev kvs) ''links'' = Some lk \<and> listing ''1&page=2'' = links_next lk)"
    by (rule fetchAll_outcomes [OF sample_parse_url t1,
        where T = "Invoice_T sample_um" and field = "''invoices''"
          and items = "[invoice ''A'', invoice ''B'']" and ?next = "listing ''1&page=2''",
        THEN conjunct2, THEN conjunct2, THEN conjunct2, THEN conjunct2, THEN conjunct2,
        THEN conjunct1, rule_format, OF b])
  have k: "\<exists>kvs lk. parse_json sample_env (listing ''1'') = Some (JObj kvs) \<and>
         map_of (rev kvs) ''links'' = Some lk \<and> listing ''1&page=2'' = links_next lk"
    using k0 [THEN conjunct2] by simp
  show ?thesis
    by (intro conjI sample_parse_url sample_transport_4 a t1 b c t2 d t9 n9 g t5 m5 h k)
qed

text \<open>
  Claim C7 as stated fails on the sample account: the page of customer 5 has the element
  field and no \<open>links\<close> object at all, so \<open>links.next\<close> is absent; the claim takes this for
  "no next page remains", but \<open>json.Unmarshal(r["links"], &links)\<close> is given an empty
  message and the call returns a syntax error, with no elements.
\<close>

theorem missing_links_object_is_an_error:
  "parse_url_ok sample_env (listing ''5'')
   \<and> transport sample_env (trace sample_world @ [Wait (bucket (clients sample_world 0)) 1])
        (page_request (clients sample_world 0) (listing ''5'')) =
        Inr \<lparr>StatusCode = 200, Body = listing ''5''\<rparr>
   \<and> parse_json sample_env (listing ''5'') = Some (JObj [(''invoices'', JArr [inv ''A''])])
   \<and> fetchAll sample_env (Invoice_T sample_um) 0 (listing ''5'') ''invoices'' sample_world =
        (Returns ([], [], Some SyntaxError),
         sample_world\<lparr>trace := [Wait 1 1, Do (page_request sample_client (listing ''5''))]\<rparr>)"
proof -
  have t5: "transport sample_env (trace sample_world @ [Wait (bucket (clients sample_world 0)) 1])
        (page_request (clients sample_world 0) (listing ''5'')) =
        Inr \<lparr>StatusCode = 200, Body = listing ''5''\<rparr>"
    by (rule sample_transport_ok) simp
  have dp: "decode_page sample_env (Invoice_T sample_um) 0 (listing ''5'') ''invoices''
        \<lparr>StatusCode = 200, Body = listing ''5''\<rparr> = Returns ([], [], Some SyntaxError)"
    by (rule decode_page_no_links [where kvs = "[(''invoices'', JArr [inv ''A''])]"])
       (simp_all add: StatusOK_def sample_parse)
  have tr: "trace sample_world @ fetch_events (clients sample_world 0) (listing ''5'') =
      [Wait 1 1, Do (page_request sample_client (listing ''5''))]"
    by (simp add: sample_world_def fetch_events_def sample_client_def)
  have run: "fetchAll sample_env (Invoice_T sample_um) 0 (listing ''5'') ''invoices'' sample_world =
        (Returns ([], [], Some SyntaxError),
         sample_world\<lparr>trace := [Wait 1 1, Do (page_request sample_client (listing ''5''))]\<rparr>)"
    unfolding fetchAll_after_Do [OF sample_parse_url t5] dp tr ..
  show ?thesis by (intro conjI sample_parse_url t5 sample_parse(3) run)
qed


section \<open>Claims about the one-page forms and the company cache\<close>







lemma GetCompanyInfo_cached:
  "company (clients w hv) = Some info \<Longrightarrow> GetCompanyInfo e hv w = (Inr info, w)"
  by (simp add: GetCompanyInfo_def)

lemma GetCompanyInfo_success:
  assumes "GetCompanyInfo e hv w = (Inr info, w')"
  shows "company (clients w' hv) = Some info"
  using assms
  by (auto simp add: GetCompanyInfo_def Let_def client_Do_def set_company_def
      split: option.splits sum.splits if_splits prod.splits)

lemma GetCompanyInfo_failure:
  assumes "GetCompanyInfo e hv w = (Inl err, w')"
  shows "company (clients w' hv) = None"
  using assms
  by (auto simp add: GetCompanyInfo_def Let_def client_Do_def bucket_Wait_def
      split: option.splits sum.splits if_splits prod.splits)

lemma GetCompanyInfo_miss:
  assumes "company (clients w hv) = None" and "parse_url_ok e (serverUrl @ ''/company'')"
  shows "trace (snd (GetCompanyInfo e hv w)) =
     trace w @ [Wait (bucket (clients w hv)) 1, Do (company_request (clients w hv))]"
  using assms
  by (auto simp add: GetCompanyInfo_def Let_def client_Do_def bucket_Wait_def NewRequest_def
      company_request_def set_company_def
      split: option.splits sum.splits if_splits prod.splits)

text \<open>
  Claim C10. A successful \<open>GetCompanyInfo\<close> leaves its result in the client; in that
  world every further call, under any behaviour of the network, returns the same company
  and leaves the world as it is: no token is taken and no request is sent, so the same
  holds for each call after it. A failed call leaves the cache empty, and the next call
  takes a token and sends the request again.
\<close>

theorem GetCompanyInfo_memoized:
  "(GetCompanyInfo e hv w = (Inr info, w') \<longrightarrow>
      company (clients w' hv) = Some info \<and> GetCompanyInfo e2 hv w' = (Inr info, w'))
   \<and> (GetCompanyInfo e hv w = (Inl err, w') \<longrightarrow>
      company (clients w' hv) = None \<and>
      (parse_url_ok e2 (serverUrl @ ''/company'') \<longrightarrow>
         trace (snd (GetCompanyInfo e2 hv w')) =
           trace w' @ [Wait (bucket (clients w' hv)) 1, Do (company_request (clients w' hv))]))"
  using GetCompanyInfo_success [of e hv w info w'] GetCompanyInfo_cached [of w' hv info e2]
    GetCompanyInfo_failure [of e hv w err w'] GetCompanyInfo_miss [of w' hv e2]
  by blast

lemma sample_company_ok:
  "GetCompanyInfo sample_env 0 sample_world =
     (Inr sample_company,
      set_company 0 sample_company
        (sample_world\<lparr>trace := [Wait 1 1, Do (company_request sample_client)]\<rparr>))"
  by (simp add: GetCompanyInfo_def NewRequest_def sample_env_def sample_transport_def
      bucket_Wait_def client_Do_def StatusOK_def sample_world_def sample_client_def
      company_request_def auth_headers_def Header_Set_def Let_def listing_def)

lemma sample_company_garbled:
  "GetCompanyInfo (sample_env\<lparr>decode_company := (\<lambda>b. Inl SyntaxError)\<rparr>) 0 sample_world =
     (Inl SyntaxError, sample_world\<lparr>trace := [Wait 1 1, Do (company_request sample_client)]\<rparr>)"
  by (simp add: GetCompanyInfo_def NewRequest_def sample_env_def sample_transport_def
      bucket_Wait_def client_Do_def StatusOK_def sample_world_def sample_client_def
      company_request_def auth_headers_def Header_Set_def Let_def listing_def)

theorem GetCompanyInfo_memoized_witness:
  "GetCompanyInfo sample_env 0 sample_world =
     (Inr sample_company,
      set_company 0 sample_company
        (sample_world\<lparr>trace := [Wait 1 1, Do (company_request sample_client)]\<rparr>))
   \<and> GetCompanyInfo sample_env 0
        (set_company 0 sample_company
          (sample_world\<lparr>trace := [Wait 1 1, Do (company_request sample_client)]\<rparr>)) =
     (Inr sample_company,
      set_company 0 sample_company
        (sample_world\<lparr>trace := [Wait 1 1, Do (company_request sample_client)]\<rparr>))
   \<and> GetCompanyInfo (sample_env\<lparr>decode_company := (\<lambda>b. Inl SyntaxError)\<rparr>) 0 sample_world =
     (Inl SyntaxError, sample_world\<lparr>trace := [Wait 1 1, Do (company_request sample_client)]\<rparr>)
   \<and> parse_url_ok sample_env (serverUrl @ ''/company'')
   \<and> trace (snd (GetCompanyInfo sample_env 0
        (sample_world\<lparr>trace := [Wait 1 1, Do (company_request sample_client)]\<rparr>))) =
     [Wait 1 1, Do (company_request sample_client), Wait 1 1, Do (company_request sample_client)]"
proof -
  have a: "GetCompanyInfo sample_env 0
        (set_company 0 sample_company
          (sample_world\<lparr>trace := [Wait 1 1, Do (company_request sample_client)]\<rparr>)) =
     (Inr sample_company,
      set_company 0 sample_company
        (sample_world\<lparr>trace := [Wait 1 1, Do (company_request sample_client)]\<rparr>))"
    using GetCompanyInfo_memoized [where e = sample_env and hv = 0 and w = sample_world
        and info = sample_company and ?e2.0 = sample_env
        and w' = "set_company 0 sample_company
          (sample_world\<lparr>trace := [Wait 1 1, Do (company_request sample_client)]\<rparr>)"]
      sample_company_ok
    by simp
  have b: "trace (snd (GetCompanyInfo sample_env 0
        (sample_world\<lparr>trace := [Wait 1 1, Do (company_request sample_client)]\<rparr>))) =
     [Wait 1 1, Do (company_request sample_client), Wait 1 1, Do (company_request sample_client)]"
    using GetCompanyInfo_memoized [where e = "sample_env\<lparr>decode_company := (\<lambda>b. Inl SyntaxError)\<rparr>"
        and hv = 0 and w = sample_world and err = SyntaxError and ?e2.0 = sample_env
        and w' = "sample_world\<lparr>trace := [Wait 1 1, Do (company_request sample_client)]\<rparr>"]
      sample_company_garbled
    by (simp add: sample_env_def sample_world_def sample_client_def)
  show ?thesis
    by (intro conjI sample_company_ok a sample_company_garbled b) (simp add: sample_env_def)
qed

section \<open>Claims about the rate limiter\<close>

lemma gated_append: "gated b xs \<Longrightarrow> gated b ys \<Longrightarrow> gated b (xs @ ys)"
  by (induction b xs rule: gated.induct) simp_all

lemma rate_limited_refl: "rate_limited hv w w"
  by (simp add: rate_limited_def)

lemma rate_limited_trans:
  assumes "rate_limited hv w w1" and "rate_limited hv w1 w2"
  shows "rate_limited hv w w2"
proof -
  from assms(1) obtain e1 where 1: "trace w1 = trace w @ e1" "gated (bucket (clients w hv)) e1"
    and b1: "\<forall>a. bucket (clients w1 a) = bucket (clients w a)"
    by (auto simp add: rate_limited_def)
  from assms(2) obtain e2 where 2: "trace w2 = trace w1 @ e2" "gated (bucket (clients w1 hv)) e2"
    and b2: "\<forall>a. bucket (clients w2 a) = bucket (clients w1 a)"
    by (auto simp add: rate_limited_def)
  have "trace w2 = trace w @ (e1 @ e2)" using 1 2 by simp
  moreover have "gated (bucket (clients w hv)) (e1 @ e2)"
    using 1 2 b1 by (simp add: gated_append)
  ultimately show ?thesis using b1 b2 unfolding rate_limited_def by metis
qed

lemma one_request: "rate_limited hv w (w\<lparr>trace := trace w @ [Wait (bucket (clients w hv)) 1, Do req]\<rparr>)"
  by (simp add: rate_limited_def)

lemma fetchAll_rate_limited: "rate_limited hv w (snd (fetchAll e T hv u field w))"
  by (auto simp add: fetchAll_def Let_def client_Do_def bucket_Wait_def rate_limited_def
      split: sum.splits)

lemma GetCompanyInfo_rate_limited: "rate_limited hv w (snd (GetCompanyInfo e hv w))"
  by (auto simp add: GetCompanyInfo_def Let_def client_Do_def bucket_Wait_def rate_limited_def
      set_company_def split: sum.splits option.splits)

lemma GetRecipients_rate_limited: "rate_limited hv w (snd (GetRecipients e hv customer w))"
  by (auto simp add: GetRecipients_def Let_def client_Do_def bucket_Wait_def rate_limited_def
      split: sum.splits)

lemma Send_rate_limited: "rate_limited (Hv i) w (snd (Send e marshal i subject body to w))"
  by (auto simp add: Send_def Let_def client_Do_def bucket_Wait_def rate_limited_def
      split: sum.splits)

lemma MarkSent_rate_limited: "rate_limited (Hv i) w (snd (MarkSent e marshal i w))"
  by (auto simp add: MarkSent_def Let_def client_Do_def bucket_Wait_def rate_limited_def
      split: sum.splits)

lemma AddPayment_rate_limited:
  "rate_limited (Hv i) w (snd (AddPayment e marshal format_date i amount date notes w))"
  by (auto simp add: AddPayment_def Let_def client_Do_def bucket_Wait_def rate_limited_def
      split: sum.splits)

lemma CreateInvoice_rate_limited: "rate_limited hv w (snd (CreateInvoice e marshal hv i w))"
  by (auto simp add: CreateInvoice_def Let_def client_Do_def bucket_Wait_def rate_limited_def
      split: sum.splits)

lemma transmitter_rate_limited: "rate_limited hv w (snd (CreateExpense_transmitter e hv b w))"
  by (auto simp add: CreateExpense_transmitter_def Let_def client_Do_def bucket_Wait_def
      rate_limited_def split: sum.splits)

lemma Download_rate_limited: "rate_limited (Hv i) w (snd (Download e i w))"
proof (cases "GetCompanyInfo e (Hv i) w")
  case (Pair r w0)
  with GetCompanyInfo_rate_limited [of "Hv i" w e] have 0: "rate_limited (Hv i) w w0" by simp
  have "rate_limited (Hv i) w0 (snd (Download e i w))"
    using Pair
    by (auto simp add: Download_def Let_def client_Do_def bucket_Wait_def rate_limited_def
        split: sum.splits)
  with 0 show ?thesis by (rule rate_limited_trans)
qed

lemma GetAttachments_rate_limited: "rate_limited (Hv i) w (snd (GetAttachments e i w))"
proof (cases "GetCompanyInfo e (Hv i) w")
  case (Pair r w0)
  with GetCompanyInfo_rate_limited [of "Hv i" w e] have 0: "rate_limited (Hv i) w w0" by simp
  have "rate_limited (Hv i) w0 (snd (GetAttachments e i w))"
    using Pair
    by (auto simp add: GetAttachments_def Let_def client_Do_def bucket_Wait_def rate_limited_def
        split: sum.splits)
  with 0 show ?thesis by (rule rate_limited_trans)
qed

lemma Attachment_Download_rate_limited:
  "rate_limited (Attachment_hv a) w (snd (Attachment_Download e a w))"
proof (cases "GetCompanyInfo e (Attachment_hv a) w")
  case (Pair r w0)
  with GetCompanyInfo_rate_limited [of "Attachment_hv a" w e]
  have 0: "rate_limited (Attachment_hv a) w w0" by simp
  have "rate_limited (Attachment_hv a) w0 (snd (Attachment_Download e a w))"
    using Pair
    by (auto simp add: Attachment_Download_def Let_def client_Do_def bucket_Wait_def
        rate_limited_def split: sum.splits)
  with 0 show ?thesis by (rule rate_limited_trans)
qed

lemma refill_rate_limited:
  assumes "refill e T y (cur, c, w) = Stop (r, w1) \<or> refill e T y (cur, c, w) = Cont (r, w1)"
  shows "rate_limited (cur_hv cur) w w1 \<and> (\<forall>cur1 c1. r = Returns (cur1, c1) \<longrightarrow> cur_hv cur1 = cur_hv cur)"
proof (cases "buf cur = [] \<and> url cur \<noteq> []")
  case False
  with assms have "w1 = w" "r = Returns (cur, c)" by (simp_all add: refill_def)
  then show ?thesis by (simp add: rate_limited_refl)
next
  case True
  obtain o1 w2 where f: "fetchAll e T (cur_hv cur) (url cur) (cur_field cur) w = (o1, w2)"
    by (cases "fetchAll e T (cur_hv cur) (url cur) (cur_field cur) w")
  with fetchAll_rate_limited [of "cur_hv cur" w e T "url cur" "cur_field cur"]
  have rl: "rate_limited (cur_hv cur) w w2" by simp
  show ?thesis
  proof (cases o1)
    case Panics
    with assms True f have "w1 = w2" "r = Panics" by (simp_all add: refill_def)
    with rl show ?thesis by simp
  next
    case (Returns t)
    obtain items nxt err where t: "t = (items, nxt, err)" by (cases t)
    show ?thesis
    proof (cases err)
      case None
      with assms True f Returns t
      have "w1 = w2" "r = Returns (cur\<lparr>buf := items, url := nxt\<rparr>, c)" by (simp_all add: refill_def)
      with rl show ?thesis by simp
    next
      case (Some er)
      obtain go_on c' where yv: "y c (None, Some er) = (go_on, c')"
        by (cases "y c (None, Some er)")
      show ?thesis
      proof (cases go_on)
        case True
        with assms \<open>buf cur = [] \<and> url cur \<noteq> []\<close> f Returns t Some yv
        have "w1 = w2" "r = Returns (cur\<lparr>buf := items, url := nxt\<rparr>, c')" by (simp_all add: refill_def)
        with rl show ?thesis by simp
      next
        case False
        with assms \<open>buf cur = [] \<and> url cur \<noteq> []\<close> f Returns t Some yv
        have "w1 = w2" "r = Returns (cur, c')" by (simp_all add: refill_def)
        with rl show ?thesis by simp
      qed
    qed
  qed
qed

lemma fetchIter_seq_rate_limited:
  assumes "fetchIter_seq e T y s = Some rw"
  shows "rate_limited (cur_hv (fst s)) (snd (snd s)) (snd rw)"
  using assms
proof (induct rule: fetchIter_seq.raw_induct)
  case (1 f e T y s rw)
  obtain cur c w where s: "s = (cur, c, w)" by (cases s)
  show ?case
  proof (cases "refill e T y s")
    case (Stop r)
    obtain o1 w1 where r: "r = (o1, w1)" by (cases r)
    from 1(2) Stop have "rw = r" by simp
    moreover have "refill e T y (cur, c, w) = Stop (o1, w1) \<or> refill e T y (cur, c, w) = Cont (o1, w1)"
      using Stop s r by simp
    note refill_rate_limited [OF this, THEN conjunct1]
    ultimately show ?thesis using s r by simp
  next
    case (Cont r)
    obtain o1 w1 where r: "r = (o1, w1)" by (cases r)
    have "refill e T y (cur, c, w) = Stop (o1, w1) \<or> refill e T y (cur, c, w) = Cont (o1, w1)"
      using Cont s r by simp
    note rr = refill_rate_limited [OF this]
    note rl = rr [THEN conjunct1] and hv = rr [THEN conjunct2]
    show ?thesis
    proof (cases o1)
      case Panics
      from 1(2) Cont r Panics have "rw = (Panics, w1)" by simp
      with rl s show ?thesis by simp
    next
      case (Returns p)
      obtain cur1 c1 where p: "p = (cur1, c1)" by (cases p)
      with Returns hv have h1: "cur_hv cur1 = cur_hv cur" by blast
      show ?thesis
      proof (cases "buf cur1")
        case Nil
        from 1(2) Cont r Returns p Nil have "rw = (Returns (cur1, c1), w1)" by simp
        with rl s show ?thesis by simp
      next
        case (Cons obj rest)
        obtain go_on c2 where yv: "y c1 (Some obj, None) = (go_on, c2)"
          by (cases "y c1 (Some obj, None)")
        show ?thesis
        proof (cases go_on)
          case False
          from 1(2) Cont r Returns p Cons yv False
          have "rw = (Returns (cur1\<lparr>buf := rest\<rparr>, c2), w1)" by simp
          with rl s show ?thesis by simp
        next
          case True
          from 1(2) Cont r Returns p Cons yv True
          have "f e T y (cur1\<lparr>buf := rest\<rparr>, c2, w1) = Some rw" by simp
          moreover have "fetchIter_seq e T y (cur1\<lparr>buf := rest\<rparr>, c2, w1) = Some rw"
            using 1(3) Cont r Returns p Cons yv True
            by (subst (asm) fetchIter_seq.simps) simp
          ultimately have "rate_limited (cur_hv (fst (cur1\<lparr>buf := rest\<rparr>, c2, w1)))
              (snd (snd (cur1\<lparr>buf := rest\<rparr>, c2, w1))) (snd rw)"
            by (rule 1(1))
          with h1 have "rate_limited (cur_hv cur) w1 (snd rw)" by simp
          with rl have "rate_limited (cur_hv cur) w (snd rw)" by (rule rate_limited_trans)
          with s show ?thesis by simp
        qed
      qed
    qed
  qed
qed (rule assms)

lemma snd_drop_next: "snd (drop_next r) = snd r"
  by (cases r) (simp add: drop_next_def split: outcome.splits prod.splits)

lemma New_allocates:
  "(case New e acc tok w of
      (Inl err, w') \<Rightarrow> w' = w
    | (Inr a, w') \<Rightarrow>
        a = heap_top w \<and> bucket (clients w' a) = Suc (heap_top w)
        \<and> buckets w' (Suc (heap_top w)) = Some (150000000, 100) \<and> trace w' = trace w)"
  by (simp add: New_def Let_def split: option.splits)

text \<open>
  Claim C8. Every operation of a client adds to the history only pairs of one
  \<open>Wait(1)\<close> on that client's bucket followed at once by one request, and leaves every
  client with the bucket it had: \<open>GetCompanyInfo\<close>, the page fetch, a whole run of a
  paginated sequence (when it returns), the one-page forms, \<open>GetRecipients\<close>, the
  operations of an invoice and of an attachment (through the client their \<open>Hv\<close> field
  points at), \<open>CreateInvoice\<close> and the transmitter of \<open>CreateExpense\<close>. \<open>New\<close> gives the
  client it creates one new bucket, of capacity 100 and one token every 150 ms.
\<close>

theorem every_request_rate_limited:
  "rate_limited hv w (snd (GetCompanyInfo e hv w))
   \<and> rate_limited hv w (snd (fetchAll e T hv u field w))
   \<and> (case fetchIter_seq e T y (cur, c, w) of
         None \<Rightarrow> True
       | Some rw \<Rightarrow> rate_limited (cur_hv cur) w (snd rw))
   \<and> rate_limited hv w (snd (FetchInvoices e um_i hv opts w))
   \<and> rate_limited hv w (snd (FetchCustomers e um_c hv opts w))
   \<and> rate_limited hv w (snd (FetchExpenses e um_e hv opts w))
   \<and> rate_limited hv w (snd (GetRecipients e hv customer w))
   \<and> rate_limited (Hv i) w (snd (Send e marshal_m i subject body to w))
   \<and> rate_limited (Hv i) w (snd (MarkSent e marshal_s i w))
   \<and> rate_limited (Hv i) w (snd (AddPayment e marshal_p format_date i amount date notes w))
   \<and> rate_limited (Hv i) w (snd (Download e i w))
   \<and> rate_limited (Hv i) w (snd (GetAttachments e i w))
   \<and> rate_limited (Attachment_hv a) w (snd (Attachment_Download e a w))
   \<and> rate_limited hv w (snd (CreateInvoice e marshal_i hv i w))
   \<and> rate_limited hv w (snd (CreateExpense_transmitter e hv b w))
   \<and> (case New e acc tok w of
         (Inl err, w') \<Rightarrow> w' = w
       | (Inr a, w') \<Rightarrow>
           a = heap_top w \<and> bucket (clients w' a) = Suc (heap_top w)
           \<and> buckets w' (Suc (heap_top w)) = Some (150000000, 100) \<and> trace w' = trace w)"
proof -
  have it: "(case fetchIter_seq e T y (cur, c, w) of
         None \<Rightarrow> True
       | Some rw \<Rightarrow> rate_limited (cur_hv cur) w (snd rw))"
    using fetchIter_seq_rate_limited [of e T y "(cur, c, w)"]
    by (simp split: option.splits)
  have fi: "rate_limited hv w (snd (FetchInvoices e um_i hv opts w))"
    using fetchAll_rate_limited [of hv w e "Invoice_T um_i" "list_url e ''invoices'' opts" "''invoices''"]
    by (simp add: FetchInvoices_def snd_drop_next)
  have fc: "rate_limited hv w (snd (FetchCustomers e um_c hv opts w))"
    using fetchAll_rate_limited [of hv w e "Customer_T um_c" "list_url e ''customers'' opts" "''customers''"]
    by (simp add: FetchCustomers_def snd_drop_next)
  have fe: "rate_limited hv w (snd (FetchExpenses e um_e hv opts w))"
    using fetchAll_rate_limited [of hv w e "Expense_T um_e" "list_url e ''expenses'' opts" "''expenses''"]
    by (simp add: FetchExpenses_def snd_drop_next)
  show ?thesis
    by (intro conjI GetCompanyInfo_rate_limited fetchAll_rate_limited it fi fc fe
        GetRecipients_rate_limited Send_rate_limited MarkSent_rate_limited AddPayment_rate_limited
        Download_rate_limited GetAttachments_rate_limited Attachment_Download_rate_limited
        CreateInvoice_rate_limited transmitter_rate_limited New_allocates)
qed

section \<open>Claims about the streaming upload\<close>



lemma pw_Write_unbounded:
  "reader_budget p = None \<Longrightarrow> pw_Write d p = (None, p\<lparr>written := written p @ d\<rparr>)"
  by (simp add: pw_Write_def)



lemma plain_names:
  "backslash \<notin> set ''spent_date''" "dquote \<notin> set ''spent_date''"
  "backslash \<notin> set ''project_id''" "dquote \<notin> set ''project_id''"
  "backslash \<notin> set ''expense_category_id''" "dquote \<notin> set ''expense_category_id''"
  "backslash \<notin> set ''notes''" "dquote \<notin> set ''notes''"
  "backslash \<notin> set ''total_cost''" "dquote \<notin> set ''total_cost''"
  by (simp_all add: backslash_def dquote_def)




















end
